theory Spec2Isabelle
  imports Main "HOL-Library.Word" "HOL-Library.Signed_Division"
begin

unbundle bit_operations_syntax

section \<open>Machine types\<close>

text \<open>
  \<open>uint8_t\<close> is \<open>8 word\<close> and \<open>uint32_t\<close> is \<open>32 word\<close>. A C \<open>int\<close> is modelled as
  an \<open>int\<close>; the bitwise operators of C on two's-complement values are the bit operations
  of HOL on \<open>int\<close>. Where a product can leave the 32-bit range (the conversion of a raw ADC
  code) the wrap-around is written out with \<open>c_int\<close>. \<open>INT_MIN\<close> is the one of a
  32-bit \<open>int\<close>. Division of C truncates towards zero: \<open>sdiv\<close>.
\<close>

type_synonym u8 = "8 word"
type_synonym u32 = "32 word"

definition INT_MIN :: int where
  "INT_MIN = - 2147483648"

definition c_int :: "int \<Rightarrow> int" where
  "c_int x = signed_take_bit 31 x"

section \<open>The register bus\<close>

text \<open>
  The driver talks to the chip through \<open>i2c_reg_read\<close>, \<open>i2c_reg_read1\<close>,
  \<open>i2c_reg_write\<close>, \<open>i2c_reg_modify1\<close> and \<open>i2c_reg_setbit1\<close> of \<open>i2c-async.h\<close>,
  which is not among the sources. The bus is a register file of bytes, a schedule of
  faults (the head says whether the next transaction fails; an empty schedule means that
  every transaction succeeds) and the log of the transactions issued so far.
\<close>

datatype xfer = Rd u8 nat | Wr u8 "u8 list"

record i2c_bus =
  regfile :: "u8 \<Rightarrow> u8"
  faults :: "bool list"
  xlog :: "xfer list"

definition next_fails :: "i2c_bus \<Rightarrow> bool" where
  "next_fails b = (case faults b of [] \<Rightarrow> False | f # _ \<Rightarrow> f)"

definition issue :: "xfer \<Rightarrow> i2c_bus \<Rightarrow> i2c_bus" where
  "issue x b = b\<lparr>faults := tl (faults b), xlog := xlog b @ [x]\<rparr>"

text \<open>
  Modelled from the spec: \<open>i2c_reg_read\<close> (absent) reads \<open>count\<close> consecutive 8-bit
  registers starting at \<open>reg\<close> in one transaction; the result is \<open>None\<close> where the C function
  returns a status other than \<open>I2C_STATUS_OK\<close>.
\<close>

definition i2c_reg_read :: "i2c_bus \<Rightarrow> u8 \<Rightarrow> nat \<Rightarrow> u8 list option \<times> i2c_bus" where
  "i2c_reg_read b reg count =
     (if next_fails b then (None, issue (Rd reg count) b)
      else (Some (map (\<lambda>i. regfile b (reg + of_nat i)) [0..<count]), issue (Rd reg count) b))"

text \<open>
  Modelled from the spec: \<open>i2c_reg_read1\<close> (absent) reads one register; the C function
  returns the byte as a non-negative \<open>int\<close> or a negative status, and the driver only
  tests \<open>r < 0\<close>, which is \<open>None\<close> here.
\<close>

definition i2c_reg_read1 :: "i2c_bus \<Rightarrow> u8 \<Rightarrow> u8 option \<times> i2c_bus" where
  "i2c_reg_read1 b reg =
     (case i2c_reg_read b reg 1 of
        (Some (v # _), b') \<Rightarrow> (Some v, b')
      | (_, b') \<Rightarrow> (None, b'))"

text \<open>
  Modelled from the spec: \<open>i2c_reg_write\<close> (absent) writes the bytes to consecutive
  registers starting at \<open>reg\<close> in one transaction; a failed transaction leaves the register
  file as it was. The boolean is \<open>rc == I2C_STATUS_OK\<close>.
\<close>

fun store :: "(u8 \<Rightarrow> u8) \<Rightarrow> u8 \<Rightarrow> u8 list \<Rightarrow> (u8 \<Rightarrow> u8)" where
  "store rf reg [] = rf"
| "store rf reg (v # vs) = store (rf(reg := v)) (reg + 1) vs"

definition i2c_reg_write :: "i2c_bus \<Rightarrow> u8 \<Rightarrow> u8 list \<Rightarrow> bool \<times> i2c_bus" where
  "i2c_reg_write b reg vs =
     (if next_fails b then (False, issue (Wr reg vs) b)
      else (True, (issue (Wr reg vs) b)\<lparr>regfile := store (regfile b) reg vs\<rparr>))"

text \<open>
  Modelled from the spec: \<open>i2c_reg_modify1\<close> (absent) is the masked register modify that
  preserves unrelated bits: the register is read, the bits of \<open>clr\<close> are cleared, the bits
  of \<open>setv\<close> (the parameter \<open>set\<close>) are set, and the result is written back. The caller places \<open>set\<close> at the
  position of the field, as \<open>axp_adc_set_rate\<close> does with \<open>(rate & 3) << 6\<close> under the
  mask \<open>0xc0\<close>. The out-parameter \<open>val\<close> is \<open>NULL\<close> at every call of the driver.
\<close>

definition i2c_reg_modify1 :: "i2c_bus \<Rightarrow> u8 \<Rightarrow> u8 \<Rightarrow> u8 \<Rightarrow> bool \<times> i2c_bus" where
  "i2c_reg_modify1 b reg clr setv =
     (case i2c_reg_read1 b reg of
        (None, b') \<Rightarrow> (False, b')
      | (Some v, b') \<Rightarrow> i2c_reg_write b' reg [(v AND NOT clr) OR setv])"

text \<open>
  Modelled from the spec: \<open>i2c_reg_setbit1\<close> (absent) is the single-bit register modify:
  bit \<open>bit\<close> of the register is set when \<open>value\<close> is nonzero and cleared otherwise.
\<close>

definition i2c_reg_setbit1 :: "i2c_bus \<Rightarrow> u8 \<Rightarrow> nat \<Rightarrow> int \<Rightarrow> bool \<times> i2c_bus" where
  "i2c_reg_setbit1 b reg bt val =
     (if val \<noteq> 0 then i2c_reg_modify1 b reg 0 (push_bit bt 1)
      else i2c_reg_modify1 b reg (push_bit bt 1) 0)"

section \<open>Driver state\<close>

record axp_driver =
  adc_enable :: int
  chargecurrent_setting :: int
  chip_id :: int

section \<open>Charge current limit\<close>

definition chargecurrent_tbl :: "int list" where
  "chargecurrent_tbl =
     [100, 190, 280, 360,
      450, 550, 630, 700,
      780, 880, 960, 1000,
      1080, 1160, 1240, 1320]"

definition chargecurrent_tblsz :: nat where
  "chargecurrent_tblsz = length chargecurrent_tbl"

text \<open>The \<open>while\<close> loop of \<open>axp_set_charge_current\<close>, from the current \<open>value\<close>.\<close>

function chargecurrent_scan :: "int \<Rightarrow> nat \<Rightarrow> nat" where
  "chargecurrent_scan maxcurrent v =
     (if v < chargecurrent_tblsz \<and> chargecurrent_tbl ! v \<le> maxcurrent
      then chargecurrent_scan maxcurrent (v + 1) else v)"
  by pat_completeness auto
termination
  by (relation "measure (\<lambda>(m, v). chargecurrent_tblsz - v)") auto

declare chargecurrent_scan.simps [simp del]

text \<open>The index chosen by \<open>axp_set_charge_current\<close>: the loop, then the step back.\<close>

definition chargecurrent_select :: "int \<Rightarrow> nat" where
  "chargecurrent_select maxcurrent =
     (let v = chargecurrent_scan maxcurrent 0
      in if v \<ge> chargecurrent_tblsz then chargecurrent_tblsz - 1
         else if v > 0 then v - 1 else v)"

text \<open>
  \<open>reg_chargecontrol1\<close> is the address \<open>AXP_REG_CHARGECONTROL1\<close> of the absent header
  \<open>axp-pmu.h\<close>.
\<close>

definition axp_set_charge_current ::
  "u8 \<Rightarrow> int \<Rightarrow> axp_driver \<times> i2c_bus \<Rightarrow> axp_driver \<times> i2c_bus" where
  "axp_set_charge_current reg_chargecontrol1 maxcurrent st =
     (case st of (axp, b) \<Rightarrow>
        let v = int (chargecurrent_select maxcurrent)
        in if v = chargecurrent_setting axp then (axp, b)
           else (axp\<lparr>chargecurrent_setting := v\<rparr>,
                 snd (i2c_reg_modify1 b reg_chargecontrol1 0x0f (word_of_int v))))"

definition axp_get_charge_current :: "axp_driver \<Rightarrow> int" where
  "axp_get_charge_current axp =
     (if chargecurrent_setting axp < 0 then chargecurrent_tbl ! 0
      else chargecurrent_tbl ! nat (chargecurrent_setting axp))"

section \<open>ADC channels\<close>

text \<open>
  The channel numbers and \<open>NUM_ADC_CHANNELS\<close> are macros of the absent header
  \<open>axp-pmu.h\<close>; their values are the positions of the entries of \<open>axp_adc_info\<close>, as its
  comments name them. \<open>AXP_REG_ADCENABLE1\<close> is \<open>0x82\<close>, the literal that
  \<open>axp_adc_set_enabled\<close> subtracts from \<open>en_reg\<close>; \<open>AXP_REG_ADCENABLE2\<close> is the register
  after it.
\<close>

definition ADC_ACIN_VOLTAGE :: int where "ADC_ACIN_VOLTAGE = 0"
definition ADC_ACIN_CURRENT :: int where "ADC_ACIN_CURRENT = 1"
definition ADC_VBUS_VOLTAGE :: int where "ADC_VBUS_VOLTAGE = 2"
definition ADC_VBUS_CURRENT :: int where "ADC_VBUS_CURRENT = 3"
definition ADC_INTERNAL_TEMP :: int where "ADC_INTERNAL_TEMP = 4"
definition ADC_TS_INPUT :: int where "ADC_TS_INPUT = 5"
definition ADC_BATTERY_VOLTAGE :: int where "ADC_BATTERY_VOLTAGE = 6"
definition ADC_CHARGE_CURRENT :: int where "ADC_CHARGE_CURRENT = 7"
definition ADC_DISCHARGE_CURRENT :: int where "ADC_DISCHARGE_CURRENT = 8"
definition ADC_APS_VOLTAGE :: int where "ADC_APS_VOLTAGE = 9"
definition ADC_BATTERY_POWER :: int where "ADC_BATTERY_POWER = 10"
definition NUM_ADC_CHANNELS :: nat where "NUM_ADC_CHANNELS = 11"

definition AXP_REG_ADCENABLE1 :: u8 where "AXP_REG_ADCENABLE1 = 0x82"
definition AXP_REG_ADCENABLE2 :: u8 where "AXP_REG_ADCENABLE2 = 0x83"

record axp_adc_info_t =
  adc_reg :: u8
  adc_en_reg :: u8
  adc_en_bit :: u8

definition axp_adc_info :: "axp_adc_info_t list" where
  "axp_adc_info =
     [\<lparr>adc_reg = 0x56, adc_en_reg = AXP_REG_ADCENABLE1, adc_en_bit = 5\<rparr>,
      \<lparr>adc_reg = 0x58, adc_en_reg = AXP_REG_ADCENABLE1, adc_en_bit = 4\<rparr>,
      \<lparr>adc_reg = 0x5a, adc_en_reg = AXP_REG_ADCENABLE1, adc_en_bit = 3\<rparr>,
      \<lparr>adc_reg = 0x5c, adc_en_reg = AXP_REG_ADCENABLE1, adc_en_bit = 2\<rparr>,
      \<lparr>adc_reg = 0x5e, adc_en_reg = AXP_REG_ADCENABLE2, adc_en_bit = 7\<rparr>,
      \<lparr>adc_reg = 0x62, adc_en_reg = AXP_REG_ADCENABLE1, adc_en_bit = 1\<rparr>,
      \<lparr>adc_reg = 0x78, adc_en_reg = AXP_REG_ADCENABLE1, adc_en_bit = 7\<rparr>,
      \<lparr>adc_reg = 0x7a, adc_en_reg = AXP_REG_ADCENABLE1, adc_en_bit = 6\<rparr>,
      \<lparr>adc_reg = 0x7c, adc_en_reg = AXP_REG_ADCENABLE1, adc_en_bit = 6\<rparr>,
      \<lparr>adc_reg = 0x7e, adc_en_reg = AXP_REG_ADCENABLE1, adc_en_bit = 1\<rparr>,
      \<lparr>adc_reg = 0x70, adc_en_reg = 0xff, adc_en_bit = 0\<rparr>]"

text \<open>
  \<open>axp_adc_read_raw\<close>. An index outside the table is undefined behaviour in C (the shift
  and the table access); the model leaves \<open>axp_adc_info ! nat adc\<close> unspecified there.
\<close>

definition axp_adc_read_raw :: "axp_driver \<Rightarrow> i2c_bus \<Rightarrow> int \<Rightarrow> int \<times> i2c_bus" where
  "axp_adc_read_raw axp b adc =
     (if adc_enable axp AND push_bit (nat adc) 1 = 0 then (INT_MIN, b)
      else
        let count = (if adc = ADC_BATTERY_POWER then 3 else 2);
            reg = adc_reg (axp_adc_info ! nat adc)
        in case i2c_reg_read b reg count of
             (None, b') \<Rightarrow> (INT_MIN, b')
           | (Some buf, b') \<Rightarrow>
               if adc = ADC_BATTERY_POWER
               then (push_bit 16 (uint (buf ! 0)) OR push_bit 8 (uint (buf ! 1)) OR uint (buf ! 2), b')
               else if adc = ADC_CHARGE_CURRENT \<or> adc = ADC_DISCHARGE_CURRENT
               then (push_bit 5 (uint (buf ! 0)) OR (uint (buf ! 1) AND 0x1f), b')
               else (push_bit 4 (uint (buf ! 0)) OR (uint (buf ! 1) AND 0xf), b'))"

definition axp_adc_conv_raw :: "int \<Rightarrow> int \<Rightarrow> int" where
  "axp_adc_conv_raw adc val =
     (if adc = ADC_ACIN_VOLTAGE \<or> adc = ADC_VBUS_VOLTAGE then c_int (val * 17) sdiv 10
      else if adc = ADC_ACIN_CURRENT then c_int (val * 5) sdiv 8
      else if adc = ADC_VBUS_CURRENT then c_int (val * 3) sdiv 8
      else if adc = ADC_INTERNAL_TEMP then c_int (val - 1447)
      else if adc = ADC_TS_INPUT then c_int (val * 4) sdiv 5
      else if adc = ADC_BATTERY_VOLTAGE then c_int (val * 11) sdiv 10
      else if adc = ADC_CHARGE_CURRENT \<or> adc = ADC_DISCHARGE_CURRENT then val sdiv 2
      else if adc = ADC_APS_VOLTAGE then c_int (val * 7) sdiv 5
      else if adc = ADC_BATTERY_POWER then c_int (val * 11) sdiv 20
      else INT_MIN)"

definition axp_adc_read :: "axp_driver \<Rightarrow> i2c_bus \<Rightarrow> int \<Rightarrow> int \<times> i2c_bus" where
  "axp_adc_read axp b adc =
     (case axp_adc_read_raw axp b adc of
        (val, b') \<Rightarrow> if val = INT_MIN then (INT_MIN, b') else (axp_adc_conv_raw adc val, b'))"

definition axp_adc_get_enabled :: "axp_driver \<Rightarrow> int" where
  "axp_adc_get_enabled axp = adc_enable axp"

text \<open>
  The \<open>for\<close> loop of \<open>axp_adc_set_enabled\<close> that computes the image \<open>regs[2]\<close> of the two
  enable registers from the requested bits.
\<close>

definition adc_enable_step :: "int \<Rightarrow> nat \<Rightarrow> u8 list \<Rightarrow> u8 list" where
  "adc_enable_step adc_bits i regs =
     (let info = axp_adc_info ! i
      in if adc_en_reg info = 0xff then regs
         else if adc_bits AND push_bit i 1 \<noteq> 0
         then (let k = nat (uint (adc_en_reg info) - 0x82)
               in regs[k := regs ! k OR push_bit (unat (adc_en_bit info)) 1])
         else regs)"

definition adc_enable_regs :: "int \<Rightarrow> u8 list" where
  "adc_enable_regs adc_bits = fold (adc_enable_step adc_bits) [0..<NUM_ADC_CHANNELS] [0, 0]"

text \<open>
  The block "These ADCs share an enable bit" of \<open>axp_adc_set_enabled\<close>, which adds the
  charge and the discharge current to the requested bits when either is requested.
\<close>

definition adc_shared_enable :: "int \<Rightarrow> int" where
  "adc_shared_enable adc_bits =
     (if adc_bits AND (push_bit (nat ADC_CHARGE_CURRENT) 1
                       OR push_bit (nat ADC_DISCHARGE_CURRENT) 1) \<noteq> 0
      then adc_bits OR push_bit (nat ADC_CHARGE_CURRENT) 1
                    OR push_bit (nat ADC_DISCHARGE_CURRENT) 1
      else adc_bits)"

definition axp_adc_set_enabled ::
  "int \<Rightarrow> axp_driver \<times> i2c_bus \<Rightarrow> axp_driver \<times> i2c_bus" where
  "axp_adc_set_enabled adc_bits st =
     (case st of (axp, b) \<Rightarrow>
        if adc_bits = adc_enable axp then (axp, b)
        else
          let regs = adc_enable_regs adc_bits;
              adc_bits1 = adc_shared_enable adc_bits;
              regs1 =
                (if adc_bits1 AND push_bit (nat ADC_BATTERY_POWER) 1 \<noteq> 0
                 then regs[0 := regs ! 0
                     OR push_bit (unat (adc_en_bit (axp_adc_info ! nat ADC_DISCHARGE_CURRENT))) 1
                     OR push_bit (unat (adc_en_bit (axp_adc_info ! nat ADC_BATTERY_VOLTAGE))) 1]
                 else regs)
          in (axp\<lparr>adc_enable := adc_bits1\<rparr>, snd (i2c_reg_write b AXP_REG_ADCENABLE1 regs1)))"

section \<open>Battery status\<close>

datatype battery_status = AXP_BATT_DISCHARGING | AXP_BATT_CHARGING | AXP_BATT_FULL

text \<open>\<open>reg_powerstatus\<close> is the address \<open>AXP_REG_POWERSTATUS\<close> of the absent header.\<close>

definition axp_battery_status ::
  "u8 \<Rightarrow> axp_driver \<Rightarrow> i2c_bus \<Rightarrow> battery_status \<times> i2c_bus" where
  "axp_battery_status reg_powerstatus axp b =
     (case i2c_reg_read1 b reg_powerstatus of
        (None, b1) \<Rightarrow> (AXP_BATT_DISCHARGING, b1)
      | (Some r, b1) \<Rightarrow>
          if uint r AND 0x04 \<noteq> 0 then (AXP_BATT_CHARGING, b1)
          else if uint r AND 0xf0 = 0 then (AXP_BATT_DISCHARGING, b1)
          else (case axp_adc_read_raw axp b1 ADC_DISCHARGE_CURRENT of
                  (d, b2) \<Rightarrow> if d = 0 then (AXP_BATT_FULL, b2) else (AXP_BATT_DISCHARGING, b2)))"

section \<open>Coulomb counters\<close>

definition axp_cc_parse :: "u8 list \<Rightarrow> u32" where
  "axp_cc_parse buf =
     push_bit 24 (ucast (buf ! 0)) OR push_bit 16 (ucast (buf ! 1))
       OR push_bit 8 (ucast (buf ! 2)) OR ucast (buf ! 3)"

text \<open>
  \<open>axp_cc_read\<close>. An out-parameter is \<open>None\<close> for a \<open>NULL\<close> pointer and \<open>Some v\<close> for a
  pointer to a cell that holds \<open>v\<close>; the result gives the cells after the call.
  \<open>reg_ccbase\<close> is the address \<open>AXP_REG_COULOMBCOUNTERBASE\<close> of the absent header.
\<close>

definition axp_cc_read ::
  "u8 \<Rightarrow> i2c_bus \<Rightarrow> u32 option \<Rightarrow> u32 option \<Rightarrow> (u32 option \<times> u32 option) \<times> i2c_bus" where
  "axp_cc_read reg_ccbase b charge discharge =
     (case i2c_reg_read b reg_ccbase 8 of
        (None, b') \<Rightarrow>
          ((map_option (\<lambda>_. 0) charge, map_option (\<lambda>_. 0) discharge), b')
      | (Some buf, b') \<Rightarrow>
          ((map_option (\<lambda>_. axp_cc_parse buf) charge,
            map_option (\<lambda>_. axp_cc_parse (drop 4 buf)) discharge), b'))"

section \<open>Supplies\<close>

text \<open>
  The supply numbers are macros of the absent header; their values are the positions of
  the names in \<open>supply_names\<close>. \<open>LDO1\<close> has no initialiser in \<open>axp_supply_info\<close>, so its
  entry is all zero.
\<close>

definition AXP_SUPPLY_DCDC1 :: int where "AXP_SUPPLY_DCDC1 = 0"
definition AXP_SUPPLY_DCDC2 :: int where "AXP_SUPPLY_DCDC2 = 1"
definition AXP_SUPPLY_DCDC3 :: int where "AXP_SUPPLY_DCDC3 = 2"
definition AXP_SUPPLY_LDO1 :: int where "AXP_SUPPLY_LDO1 = 3"
definition AXP_SUPPLY_LDO2 :: int where "AXP_SUPPLY_LDO2 = 4"
definition AXP_SUPPLY_LDO3 :: int where "AXP_SUPPLY_LDO3 = 5"
definition AXP_SUPPLY_LDO_IO0 :: int where "AXP_SUPPLY_LDO_IO0 = 6"
definition AXP_NUM_SUPPLIES :: nat where "AXP_NUM_SUPPLIES = 7"

record axp_supply_info_t =
  volt_reg :: u8
  volt_reg_mask :: u8
  en_reg :: u8
  en_bit :: u8
  min_mV :: int
  max_mV :: int
  step_mV :: int

definition axp_supply_info :: "axp_supply_info_t list" where
  "axp_supply_info =
     [\<lparr>volt_reg = 0x26, volt_reg_mask = 0x7f, en_reg = 0x12, en_bit = 0,
       min_mV = 700, max_mV = 3500, step_mV = 25\<rparr>,
      \<lparr>volt_reg = 0x23, volt_reg_mask = 0x3f, en_reg = 0x10, en_bit = 0,
       min_mV = 700, max_mV = 2275, step_mV = 25\<rparr>,
      \<lparr>volt_reg = 0x27, volt_reg_mask = 0x7f, en_reg = 0x12, en_bit = 1,
       min_mV = 700, max_mV = 3500, step_mV = 25\<rparr>,
      \<lparr>volt_reg = 0, volt_reg_mask = 0, en_reg = 0, en_bit = 0,
       min_mV = 0, max_mV = 0, step_mV = 0\<rparr>,
      \<lparr>volt_reg = 0x28, volt_reg_mask = 0xf0, en_reg = 0x12, en_bit = 2,
       min_mV = 1800, max_mV = 3300, step_mV = 100\<rparr>,
      \<lparr>volt_reg = 0x28, volt_reg_mask = 0x0f, en_reg = 0x12, en_bit = 3,
       min_mV = 1800, max_mV = 3300, step_mV = 100\<rparr>,
      \<lparr>volt_reg = 0x91, volt_reg_mask = 0xf0, en_reg = 0x90, en_bit = 0xff,
       min_mV = 1800, max_mV = 3300, step_mV = 100\<rparr>]"

text \<open>
  The result of \<open>axp_supply_get_voltage\<close> is an \<open>int\<close> in C: one of the two sentinels
  \<open>AXP_SUPPLY_NOT_PRESENT\<close> and \<open>AXP_SUPPLY_DISABLED\<close>, macros of the absent header, or
  the number of millivolts that the function computes.
\<close>

datatype supply_voltage = AXP_SUPPLY_NOT_PRESENT | AXP_SUPPLY_DISABLED | Millivolts int

text \<open>
  Modelled from the spec: \<open>find_first_set_bit\<close> (absent) gives the position of the lowest
  set bit of the mask, the amount of the right shift. It is called on a nonzero mask only.
\<close>

definition find_first_set_bit :: "int \<Rightarrow> nat" where
  "find_first_set_bit m = length (takeWhile (\<lambda>n. \<not> bit m n) [0..<32])"

definition axp_supply_set_voltage :: "int \<Rightarrow> int \<Rightarrow> i2c_bus \<Rightarrow> i2c_bus" where
  "axp_supply_set_voltage supply voltage b =
     (let info = axp_supply_info ! nat supply
      in if volt_reg info = 0 \<or> volt_reg_mask info = 0 then b
         else if voltage > 0 \<and> step_mV info \<noteq> 0
                 \<and> (voltage < min_mV info \<or> voltage > max_mV info) then b
         else
           let b1 = (if voltage > 0 \<and> step_mV info \<noteq> 0
                     then (let regval = (voltage - min_mV info) sdiv step_mV info
                           in snd (i2c_reg_modify1 b (volt_reg info) (volt_reg_mask info)
                                     (word_of_int regval)))
                     else b)
           in if en_bit info \<noteq> 0xff
              then snd (i2c_reg_setbit1 b1 (en_reg info) (unat (en_bit info))
                          (if voltage > 0 then 1 else 0))
              else b1)"

text \<open>
  The enable test of \<open>axp_supply_get_voltage\<close> for a supply other than \<open>LDO_IO0\<close>:
  \<open>r & (1 << info->en_bit) == 0\<close>. In C \<open>==\<close> binds tighter than \<open>&\<close>, so the
  condition is \<open>r & ((1 << info->en_bit) == 0)\<close>.
\<close>

definition en_test :: "int \<Rightarrow> u8 \<Rightarrow> bool" where
  "en_test r bt = (r AND (if push_bit (unat bt) (1::int) = 0 then 1 else 0) \<noteq> 0)"

text \<open>The second half of \<open>axp_supply_get_voltage\<close>, from the test of the mask on.\<close>

definition supply_read_voltage :: "axp_supply_info_t \<Rightarrow> i2c_bus \<Rightarrow> supply_voltage \<times> i2c_bus" where
  "supply_read_voltage info b =
     (if volt_reg_mask info = 0 then (Millivolts (min_mV info), b)
      else case i2c_reg_read1 b (volt_reg info) of
             (None, b') \<Rightarrow> (Millivolts 0, b')
           | (Some r, b') \<Rightarrow>
               let bt = find_first_set_bit (uint (volt_reg_mask info));
                   val = drop_bit bt (uint r AND uint (volt_reg_mask info))
               in (Millivolts (min_mV info + val * step_mV info), b'))"

definition axp_supply_get_voltage :: "i2c_bus \<Rightarrow> int \<Rightarrow> supply_voltage \<times> i2c_bus" where
  "axp_supply_get_voltage b supply =
     (let info = axp_supply_info ! nat supply
      in if volt_reg info = 0 then (AXP_SUPPLY_NOT_PRESENT, b)
         else if en_reg info \<noteq> 0
         then (case i2c_reg_read1 b (en_reg info) of
                 (None, b1) \<Rightarrow> (AXP_SUPPLY_DISABLED, b1)
               | (Some r, b1) \<Rightarrow>
                   if supply = AXP_SUPPLY_LDO_IO0
                   then (if uint r AND 7 \<noteq> 2 then (AXP_SUPPLY_DISABLED, b1)
                         else supply_read_voltage info b1)
                   else (if en_test (uint r) (en_bit info) then (AXP_SUPPLY_DISABLED, b1)
                         else supply_read_voltage info b1))
         else supply_read_voltage info b)"

section \<open>Simulator: sectors as host files\<close>

text \<open>
  The host file system, as far as \<open>ata_write_sectors\<close> and \<open>ata_read_sectors\<close> see it:
  the contents of the files by name, and the names for which \<open>fopen\<close> fails whatever the
  mode. \<open>fopen(name, "r")\<close> also fails when there is no such file.
\<close>

record hostfs =
  files :: "string \<rightharpoonup> u8 list"
  denied :: "string \<Rightarrow> bool"

text \<open>The conversion \<open>%lX\<close> of \<open>sprintf\<close>: upper-case hexadecimal, no leading zeros.\<close>

definition hex_digit :: "nat \<Rightarrow> char" where
  "hex_digit d = ''0123456789ABCDEF'' ! d"

fun hexX :: "nat \<Rightarrow> string" where
  "hexX n = (if n < 16 then [hex_digit n] else hexX (n div 16) @ [hex_digit (n mod 16)])"

declare hexX.simps [simp del]

text \<open>
  \<open>sprintf(name, "sector%lX.bin", start + i)\<close>; \<open>start\<close> is an \<open>unsigned long\<close>, a word
  of the host's width, and the sum wraps around.
\<close>

definition sector_name :: "'a::len word \<Rightarrow> nat \<Rightarrow> string" where
  "sector_name start i = ''sector'' @ hexX (unat (start + of_nat i)) @ ''.bin''"

text \<open>
  One iteration of the loop of \<open>ata_write_sectors\<close>: \<open>fopen(name, "w")\<close>, and if the file
  opens, \<open>fwrite(buf, 512, 1, f)\<close> and \<open>fclose\<close>. The buffer holds at least 512 bytes.
\<close>

definition write_sector :: "'a::len word \<Rightarrow> u8 list \<Rightarrow> nat \<Rightarrow> hostfs \<Rightarrow> hostfs" where
  "write_sector start buf i fs =
     (let name = sector_name start i
      in if denied fs name then fs
         else fs\<lparr>files := (files fs)(name \<mapsto> take 512 buf)\<rparr>)"

definition ata_write_sectors ::
  "'a::len word \<Rightarrow> u8 \<Rightarrow> u8 list \<Rightarrow> hostfs \<Rightarrow> int \<times> hostfs" where
  "ata_write_sectors start count buf fs =
     (1, fold (write_sector start buf) [0..<unat count] fs)"

text \<open>
  One iteration of the loop of \<open>ata_read_sectors\<close>: \<open>fopen(name, "r")\<close>, and if the file
  opens, \<open>fread(buf, 512, 1, f)\<close> copies up to 512 bytes of it to the start of \<open>buf\<close>.
\<close>

definition read_sector :: "'a::len word \<Rightarrow> hostfs \<Rightarrow> nat \<Rightarrow> u8 list \<Rightarrow> u8 list" where
  "read_sector start fs i buf =
     (let name = sector_name start i
      in if denied fs name then buf
         else case files fs name of
                None \<Rightarrow> buf
              | Some content \<Rightarrow> take 512 content @ drop (length (take 512 content)) buf)"

definition ata_read_sectors ::
  "'a::len word \<Rightarrow> u8 \<Rightarrow> u8 list \<Rightarrow> hostfs \<Rightarrow> int \<times> u8 list" where
  "ata_read_sectors start count buf fs =
     (1, fold (read_sector start fs) [0..<unat count] buf)"

section \<open>Concrete inputs\<close>

text \<open>
  Buses and drivers for the concrete evaluations below: every register holds the same
  byte, no transaction is scheduled to fail, and nothing has been issued yet.
\<close>

definition all_regs :: "u8 \<Rightarrow> u8 \<Rightarrow> u8" where
  "all_regs v = (\<lambda>_. v)"

definition quiet_bus :: "(u8 \<Rightarrow> u8) \<Rightarrow> i2c_bus" where
  "quiet_bus rf = \<lparr>regfile = rf, faults = [], xlog = []\<rparr>"

definition axp_with :: "int \<Rightarrow> axp_driver" where
  "axp_with bits = \<lparr>adc_enable = bits, chargecurrent_setting = - 1, chip_id = 0\<rparr>"

definition empty_fs :: hostfs where
  "empty_fs = \<lparr>files = Map.empty, denied = (\<lambda>_. False)\<rparr>"

section \<open>Properties\<close>

lemma tblsz_16: "chargecurrent_tblsz = 16"
  by (simp add: chargecurrent_tblsz_def chargecurrent_tbl_def)

subsection \<open>Charge current selection\<close>

lemma tbl_sorted: "sorted chargecurrent_tbl"
  by (simp add: chargecurrent_tbl_def)

lemma tbl_len: "length chargecurrent_tbl = 16"
  by (simp add: chargecurrent_tbl_def)

lemma scan_inv:
  "v \<le> 16 \<Longrightarrow> (\<forall>j<v. chargecurrent_tbl ! j \<le> m) \<Longrightarrow>
   v \<le> chargecurrent_scan m v \<and> chargecurrent_scan m v \<le> 16 \<and>
   (\<forall>j<chargecurrent_scan m v. chargecurrent_tbl ! j \<le> m) \<and>
   (chargecurrent_scan m v < 16 \<longrightarrow> m < chargecurrent_tbl ! chargecurrent_scan m v)"
proof (induction m v rule: chargecurrent_scan.induct)
  case (1 m v)
  show ?case
  proof (cases "v < chargecurrent_tblsz \<and> chargecurrent_tbl ! v \<le> m")
    case True
    then have v16: "v + 1 \<le> 16" by (simp add: tblsz_16)
    have all: "\<forall>j<v + 1. chargecurrent_tbl ! j \<le> m"
      using True "1.prems"(2) by (auto simp: less_Suc_eq)
    have eq: "chargecurrent_scan m v = chargecurrent_scan m (v + 1)"
      by (subst chargecurrent_scan.simps) (simp only: True simp_thms if_True)
    from "1.IH"[OF True v16 all] show ?thesis
      unfolding eq by simp
  next
    case False
    have eq: "chargecurrent_scan m v = v"
      by (subst chargecurrent_scan.simps) (simp only: False if_False)
    from False "1.prems" show ?thesis
      unfolding eq by (auto simp: tblsz_16)
  qed
qed

lemma select_props:
  "chargecurrent_select m < 16"
  "m < 100 \<Longrightarrow> chargecurrent_select m = 0"
  "1320 \<le> m \<Longrightarrow> chargecurrent_select m = 15"
  "100 \<le> m \<Longrightarrow> chargecurrent_tbl ! chargecurrent_select m \<le> m"
  "100 \<le> m \<Longrightarrow> j < 16 \<Longrightarrow> chargecurrent_tbl ! j \<le> m \<Longrightarrow>
     chargecurrent_tbl ! j \<le> chargecurrent_tbl ! chargecurrent_select m"
proof -
  define r where "r = chargecurrent_scan m 0"
  have inv: "r \<le> 16" "\<forall>j<r. chargecurrent_tbl ! j \<le> m"
       "r < 16 \<longrightarrow> m < chargecurrent_tbl ! r"
    using scan_inv[of 0 m] by (simp_all add: r_def)
  have sel: "chargecurrent_select m = (if r \<ge> 16 then 15 else if r > 0 then r - 1 else r)"
    by (simp add: chargecurrent_select_def Let_def tblsz_16 r_def)
  have mono: "\<And>i j. i \<le> j \<Longrightarrow> j < 16 \<Longrightarrow> chargecurrent_tbl ! i \<le> chargecurrent_tbl ! j"
    using tbl_sorted by (simp add: sorted_iff_nth_mono tbl_len)
  have t0: "chargecurrent_tbl ! 0 = 100" and t15: "chargecurrent_tbl ! 15 = 1320"
    by (simp_all add: chargecurrent_tbl_def)
  show "chargecurrent_select m < 16" using inv(1) by (auto simp: sel)
  show "chargecurrent_select m = 0" if "m < 100"
  proof -
    have "r = 0"
    proof (rule ccontr)
      assume "r \<noteq> 0"
      then have "chargecurrent_tbl ! 0 \<le> m" using inv(2) by auto
      with that t0 show False by simp
    qed
    then show ?thesis by (simp add: sel)
  qed
  show "chargecurrent_select m = 15" if "1320 \<le> m"
  proof -
    have "r = 16"
    proof (rule ccontr)
      assume "r \<noteq> 16"
      then have lt: "r < 16" using inv(1) by simp
      then have "m < chargecurrent_tbl ! r" using inv(3) by simp
      moreover have "chargecurrent_tbl ! r \<le> chargecurrent_tbl ! 15"
        using mono[of r 15] lt by simp
      ultimately show False using that t15 by simp
    qed
    then show ?thesis by (simp add: sel)
  qed
  have rpos: "0 < r" if "100 \<le> m"
  proof (rule ccontr)
    assume "\<not> 0 < r"
    then have "r = 0" by simp
    then have "m < chargecurrent_tbl ! 0" using inv(3) by simp
    with that t0 show False by simp
  qed
  show "chargecurrent_tbl ! chargecurrent_select m \<le> m" if "100 \<le> m"
    using rpos[OF that] inv(1,2) by (auto simp: sel)
  show "chargecurrent_tbl ! j \<le> chargecurrent_tbl ! chargecurrent_select m"
    if "100 \<le> m" "j < 16" "chargecurrent_tbl ! j \<le> m"
  proof (cases "r \<ge> 16")
    case True
    then show ?thesis using mono[of j 15] that(2) by (simp add: sel)
  next
    case False
    then have lt: "r < 16" by simp
    then have "m < chargecurrent_tbl ! r" using inv(3) by simp
    with that(3) have "chargecurrent_tbl ! j < chargecurrent_tbl ! r" by simp
    then have "j < r" using mono[of r j] that(2) by (cases "j < r") auto
    then have "j \<le> r - 1" by simp
    then have "chargecurrent_tbl ! j \<le> chargecurrent_tbl ! (r - 1)"
      using mono[of j "r - 1"] lt by simp
    then show ?thesis using rpos[OF that(1)] lt by (simp add: sel)
  qed
qed

lemma select_examples:
  "chargecurrent_select 0 = 0" "chargecurrent_select 10000 = 15" "chargecurrent_select 700 = 7"
  by code_simp+

text \<open>
  C5: for every requested value \<open>m\<close>, \<open>axp_set_charge_current\<close> chooses an index of the
  16-entry table; the index is 0 when \<open>m\<close> is below 100 and 15 when \<open>m\<close> is 1320 or more;
  from 100 on the entry chosen does not exceed \<open>m\<close> and no entry that does not exceed \<open>m\<close>
  is greater. The index is what the driver caches, and \<open>axp_get_charge_current\<close> then
  gives the entry. A request of 0 selects 100 mA, of 10000 selects 1320 mA, of 700
  selects 700 mA.
\<close>

theorem axp_set_charge_current_selects:
  "chargecurrent_select m < chargecurrent_tblsz \<and>
   (m < 100 \<longrightarrow> chargecurrent_select m = 0) \<and>
   (1320 \<le> m \<longrightarrow> chargecurrent_select m = 15) \<and>
   (100 \<le> m \<longrightarrow>
      chargecurrent_tbl ! chargecurrent_select m \<le> m \<and>
      (\<forall>j<chargecurrent_tblsz. chargecurrent_tbl ! j \<le> m \<longrightarrow>
         chargecurrent_tbl ! j \<le> chargecurrent_tbl ! chargecurrent_select m)) \<and>
   chargecurrent_setting (fst (axp_set_charge_current reg m (axp, b)))
     = int (chargecurrent_select m) \<and>
   axp_get_charge_current (fst (axp_set_charge_current reg m (axp, b)))
     = chargecurrent_tbl ! chargecurrent_select m \<and>
   chargecurrent_tbl ! chargecurrent_select 0 = 100 \<and>
   chargecurrent_tbl ! chargecurrent_select 10000 = 1320 \<and>
   chargecurrent_tbl ! chargecurrent_select 700 = 700"
proof -
  have cached: "chargecurrent_setting (fst (axp_set_charge_current reg m (axp, b)))
                  = int (chargecurrent_select m)"
    by (simp add: axp_set_charge_current_def Let_def)
  then have got: "axp_get_charge_current (fst (axp_set_charge_current reg m (axp, b)))
                  = chargecurrent_tbl ! chargecurrent_select m"
    by (simp add: axp_get_charge_current_def)
  have ex: "chargecurrent_tbl ! chargecurrent_select 0 = 100"
           "chargecurrent_tbl ! chargecurrent_select 10000 = 1320"
           "chargecurrent_tbl ! chargecurrent_select 700 = 700"
    by (simp_all add: select_examples chargecurrent_tbl_def)
  show ?thesis
    using select_props[of m] cached got ex by (simp add: tblsz_16)
qed

theorem axp_set_charge_current_selects_witness:
  "(100::int) \<le> 700 \<and> chargecurrent_select 700 < chargecurrent_tblsz \<and>
   chargecurrent_tbl ! chargecurrent_select 700 \<le> 700 \<and>
   (7 < chargecurrent_tblsz \<and> chargecurrent_tbl ! 7 \<le> 700 \<and>
    chargecurrent_tbl ! 7 \<le> chargecurrent_tbl ! chargecurrent_select 700) \<and>
   (0::int) < 100 \<and> chargecurrent_select 0 = 0 \<and>
   (1320::int) \<le> 10000 \<and> chargecurrent_select 10000 = 15"
proof -
  have t7: "chargecurrent_tbl ! 7 = 700"
    by (simp add: chargecurrent_tbl_def)
  show ?thesis
    using axp_set_charge_current_selects [of 700]
          axp_set_charge_current_selects [of 0]
          axp_set_charge_current_selects [of 10000]
    by (simp add: t7 tblsz_16)
qed

subsection \<open>The bus\<close>

lemma i2c_reg_read1_eq:
  "i2c_reg_read1 b reg =
     (if next_fails b then None else Some (regfile b reg), issue (Rd reg 1) b)"
  by (simp add: i2c_reg_read1_def i2c_reg_read_def)

lemma next_fails_quiet [simp]: "\<not> next_fails (quiet_bus rf)"
  by (simp add: next_fails_def quiet_bus_def)

lemma regfile_quiet [simp]: "regfile (quiet_bus rf) = rf"
  by (simp add: quiet_bus_def)

subsection \<open>ADC conversion and reads\<close>

lemma c_int_id: "- 2147483648 \<le> x \<Longrightarrow> x < 2147483648 \<Longrightarrow> c_int x = x"
  unfolding c_int_def by (rule signed_take_bit_int_eq_self) simp_all

named_theorems adc_consts

declare ADC_ACIN_VOLTAGE_def [adc_consts] ADC_ACIN_CURRENT_def [adc_consts]
  ADC_VBUS_VOLTAGE_def [adc_consts] ADC_VBUS_CURRENT_def [adc_consts]
  ADC_INTERNAL_TEMP_def [adc_consts] ADC_TS_INPUT_def [adc_consts]
  ADC_BATTERY_VOLTAGE_def [adc_consts] ADC_CHARGE_CURRENT_def [adc_consts]
  ADC_DISCHARGE_CURRENT_def [adc_consts] ADC_APS_VOLTAGE_def [adc_consts]
  ADC_BATTERY_POWER_def [adc_consts]

lemma conv_raw_in_range:
  assumes "- 67108864 \<le> v" "v < 67108864"
  shows "axp_adc_conv_raw ADC_ACIN_VOLTAGE v = (v * 17) sdiv 10"
    and "axp_adc_conv_raw ADC_VBUS_VOLTAGE v = (v * 17) sdiv 10"
    and "axp_adc_conv_raw ADC_ACIN_CURRENT v = (v * 5) sdiv 8"
    and "axp_adc_conv_raw ADC_VBUS_CURRENT v = (v * 3) sdiv 8"
    and "axp_adc_conv_raw ADC_INTERNAL_TEMP v = v - 1447"
    and "axp_adc_conv_raw ADC_TS_INPUT v = (v * 4) sdiv 5"
    and "axp_adc_conv_raw ADC_BATTERY_VOLTAGE v = (v * 11) sdiv 10"
    and "axp_adc_conv_raw ADC_CHARGE_CURRENT v = v sdiv 2"
    and "axp_adc_conv_raw ADC_DISCHARGE_CURRENT v = v sdiv 2"
    and "axp_adc_conv_raw ADC_APS_VOLTAGE v = (v * 7) sdiv 5"
    and "axp_adc_conv_raw ADC_BATTERY_POWER v = (v * 11) sdiv 20"
  using assms by (simp_all add: axp_adc_conv_raw_def adc_consts c_int_id)

lemma sdiv_nonneg: "0 \<le> a \<Longrightarrow> 0 < b \<Longrightarrow> a sdiv b = a div (b::int)"
  by (simp add: signed_divide_int_def sgn_if)

lemma conv_raw_other: "adc < 0 \<or> 10 < adc \<Longrightarrow> axp_adc_conv_raw adc v = INT_MIN"
  by (auto simp add: axp_adc_conv_raw_def adc_consts)

lemma conv_raw_lower:
  assumes "0 \<le> adc" "adc \<le> 10" "0 \<le> v" "v < 16777216"
  shows "- 1447 \<le> axp_adc_conv_raw adc v"
proof -
  from assms(1,2) consider "adc = 0" | "adc = 1" | "adc = 2" | "adc = 3" | "adc = 4"
    | "adc = 5" | "adc = 6" | "adc = 7" | "adc = 8" | "adc = 9" | "adc = 10"
    by atomize_elim presburger
  then show ?thesis
    using assms(3,4)
    by cases (simp_all add: axp_adc_conv_raw_def adc_consts c_int_id sdiv_nonneg
                pos_imp_zdiv_nonneg_iff)
qed

lemma raw_bounds:
  fixes x y z :: u8
  shows "0 \<le> push_bit 16 (uint x) OR push_bit 8 (uint y) OR uint z"
    and "push_bit 16 (uint x) OR push_bit 8 (uint y) OR uint z < 16777216"
    and "0 \<le> push_bit 5 (uint x) OR (uint y AND 0x1f)"
    and "push_bit 5 (uint x) OR (uint y AND 0x1f) < 16777216"
    and "0 \<le> push_bit 4 (uint x) OR (uint y AND 0xf)"
    and "push_bit 4 (uint x) OR (uint y AND 0xf) < 16777216"
proof -
  have ux: "uint x < 256" "uint y < 256" "uint z < 256" "0 \<le> uint x" "0 \<le> uint y" "0 \<le> uint z"
    using uint_lt2p[of x] uint_lt2p[of y] uint_lt2p[of z] by simp_all
  have p16: "push_bit 16 (uint x) < 2 ^ 24" "push_bit 8 (uint y) < 2 ^ 24" "uint z < 2 ^ 24"
       "push_bit 5 (uint x) < 2 ^ 24" "push_bit 4 (uint x) < 2 ^ 24"
    using ux by (simp_all add: push_bit_eq_mult)
  have a1: "uint y AND 0x1f < 2 ^ 24" "uint y AND 0xf < 2 ^ 24"
    using AND_upper1'[of "uint y" "2^24" "0x1f"] AND_upper1'[of "uint y" "2^24" "0xf"] ux
    by simp_all
  show "0 \<le> push_bit 16 (uint x) OR push_bit 8 (uint y) OR uint z"
    by simp
  show "0 \<le> push_bit 5 (uint x) OR (uint y AND 0x1f)" by simp
  show "0 \<le> push_bit 4 (uint x) OR (uint y AND 0xf)" by simp
  have "push_bit 16 (uint x) OR push_bit 8 (uint y) OR uint z < 2 ^ 24"
    using p16 by (intro OR_upper) simp_all
  then show "push_bit 16 (uint x) OR push_bit 8 (uint y) OR uint z < 16777216" by simp
  have "push_bit 5 (uint x) OR (uint y AND 0x1f) < 2 ^ 24"
    using p16 a1 by (intro OR_upper) simp_all
  then show "push_bit 5 (uint x) OR (uint y AND 0x1f) < 16777216" by simp
  have "push_bit 4 (uint x) OR (uint y AND 0xf) < 2 ^ 24"
    using p16 a1 by (intro OR_upper) simp_all
  then show "push_bit 4 (uint x) OR (uint y AND 0xf) < 16777216" by simp
qed


lemma read_raw_disabled:
  "adc_enable axp AND push_bit (nat adc) 1 = 0 \<Longrightarrow> axp_adc_read_raw axp b adc = (INT_MIN, b)"
  by (simp add: axp_adc_read_raw_def)

lemma read_raw_enabled_ok:
  assumes "adc_enable axp AND push_bit (nat adc) 1 \<noteq> 0" "\<not> next_fails b"
  shows "0 \<le> fst (axp_adc_read_raw axp b adc) \<and> fst (axp_adc_read_raw axp b adc) < 16777216"
  using assms by (simp add: axp_adc_read_raw_def i2c_reg_read_def Let_def raw_bounds)

text \<open>
  C7: the conversion of a raw code is the integer formula of its channel, with the
  truncating division of C, for every raw code between \<open>-2^26\<close> and \<open>2^26\<close> (no product
  leaves the range of a 32-bit \<open>int\<close> there; the raw codes of the chip have at most 24
  bits). Any index outside 0..10 gives \<open>INT_MIN\<close>. Raw code 1000 on the battery voltage
  converts to 1100 and raw code 0 on the internal temperature to -1447.
\<close>

theorem axp_adc_conv_raw_formulas:
  "(- 67108864 \<le> v \<and> v < 67108864 \<longrightarrow>
      axp_adc_conv_raw ADC_ACIN_VOLTAGE v = (v * 17) sdiv 10 \<and>
      axp_adc_conv_raw ADC_VBUS_VOLTAGE v = (v * 17) sdiv 10 \<and>
      axp_adc_conv_raw ADC_ACIN_CURRENT v = (v * 5) sdiv 8 \<and>
      axp_adc_conv_raw ADC_VBUS_CURRENT v = (v * 3) sdiv 8 \<and>
      axp_adc_conv_raw ADC_INTERNAL_TEMP v = v - 1447 \<and>
      axp_adc_conv_raw ADC_TS_INPUT v = (v * 4) sdiv 5 \<and>
      axp_adc_conv_raw ADC_BATTERY_VOLTAGE v = (v * 11) sdiv 10 \<and>
      axp_adc_conv_raw ADC_CHARGE_CURRENT v = v sdiv 2 \<and>
      axp_adc_conv_raw ADC_DISCHARGE_CURRENT v = v sdiv 2 \<and>
      axp_adc_conv_raw ADC_APS_VOLTAGE v = (v * 7) sdiv 5 \<and>
      axp_adc_conv_raw ADC_BATTERY_POWER v = (v * 11) sdiv 20) \<and>
   (adc < 0 \<or> 10 < adc \<longrightarrow> axp_adc_conv_raw adc v = INT_MIN) \<and>
   axp_adc_conv_raw ADC_BATTERY_VOLTAGE 1000 = 1100 \<and>
   axp_adc_conv_raw ADC_INTERNAL_TEMP 0 = - 1447"
proof -
  have ex: "axp_adc_conv_raw ADC_BATTERY_VOLTAGE 1000 = 1100"
           "axp_adc_conv_raw ADC_INTERNAL_TEMP 0 = - 1447"
    by (simp_all add: conv_raw_in_range sdiv_nonneg)
  show ?thesis
    using conv_raw_in_range[of v] conv_raw_other[of adc v] ex by blast
qed

theorem axp_adc_conv_raw_formulas_witness:
  "(- 67108864 \<le> (2000::int) \<and> (2000::int) < 67108864) \<and>
   axp_adc_conv_raw ADC_ACIN_VOLTAGE 2000 = 3400 \<and>
   axp_adc_conv_raw ADC_ACIN_CURRENT 2000 = 1250 \<and>
   axp_adc_conv_raw ADC_VBUS_CURRENT 2001 = 750 \<and>
   axp_adc_conv_raw ADC_BATTERY_POWER 2001 = 1100 \<and>
   ((11::int) < 0 \<or> (10::int) < 11) \<and> axp_adc_conv_raw 11 2000 = INT_MIN"
  using axp_adc_conv_raw_formulas [of 2000 11] axp_adc_conv_raw_formulas [of 2001 11]
  by (simp add: sdiv_nonneg)

text \<open>
  C9: when the bit of the channel is clear in the enabled mask, \<open>axp_adc_read_raw\<close> and
  \<open>axp_adc_read\<close> return \<open>INT_MIN\<close> and leave the bus as it was: no transaction is
  issued, whatever the registers hold. When the bit of a channel of the table is set and
  the register read succeeds, neither returns \<open>INT_MIN\<close>.
\<close>

theorem axp_adc_read_disabled_sentinel:
  "(adc_enable axp AND push_bit (nat adc) 1 = 0 \<longrightarrow>
      axp_adc_read_raw axp b adc = (INT_MIN, b) \<and> axp_adc_read axp b adc = (INT_MIN, b)) \<and>
   (0 \<le> adc \<and> adc < int NUM_ADC_CHANNELS \<and>
    adc_enable axp AND push_bit (nat adc) 1 \<noteq> 0 \<and> \<not> next_fails b \<longrightarrow>
      fst (axp_adc_read_raw axp b adc) \<noteq> INT_MIN \<and> fst (axp_adc_read axp b adc) \<noteq> INT_MIN)"
proof -
  have off: "axp_adc_read_raw axp b adc = (INT_MIN, b) \<and> axp_adc_read axp b adc = (INT_MIN, b)"
    if "adc_enable axp AND push_bit (nat adc) 1 = 0"
    using read_raw_disabled[OF that] by (simp add: axp_adc_read_def)
  have on: "fst (axp_adc_read_raw axp b adc) \<noteq> INT_MIN \<and> fst (axp_adc_read axp b adc) \<noteq> INT_MIN"
    if r: "0 \<le> adc" "adc < int NUM_ADC_CHANNELS"
      and e: "adc_enable axp AND push_bit (nat adc) 1 \<noteq> 0" "\<not> next_fails b"
  proof -
    obtain raw b' where rb: "axp_adc_read_raw axp b adc = (raw, b')"
      by (cases "axp_adc_read_raw axp b adc")
    have bnd: "0 \<le> raw" "raw < 16777216"
      using read_raw_enabled_ok[OF e] by (simp_all add: rb)
    have "- 1447 \<le> axp_adc_conv_raw adc raw"
      using conv_raw_lower[of adc raw] r bnd by (simp add: NUM_ADC_CHANNELS_def)
    then show ?thesis
      using bnd by (simp add: axp_adc_read_def rb INT_MIN_def)
  qed
  from off on show ?thesis by blast
qed

theorem axp_adc_read_disabled_sentinel_witness:
  "(adc_enable (axp_with 0) AND push_bit (nat 6) 1 = 0 \<and>
    axp_adc_read_raw (axp_with 0) (quiet_bus (all_regs 0xff)) 6 = (INT_MIN, quiet_bus (all_regs 0xff))) \<and>
   (0 \<le> (6::int) \<and> 6 < int NUM_ADC_CHANNELS \<and>
    adc_enable (axp_with 0x40) AND push_bit (nat 6) 1 \<noteq> 0 \<and>
    \<not> next_fails (quiet_bus (all_regs 0xff)) \<and>
    fst (axp_adc_read (axp_with 0x40) (quiet_bus (all_regs 0xff)) 6) \<noteq> INT_MIN)"
  using axp_adc_read_disabled_sentinel [of "axp_with 0" 6 "quiet_bus (all_regs 0xff)"]
        axp_adc_read_disabled_sentinel [of "axp_with 0x40" 6 "quiet_bus (all_regs 0xff)"]
  by (simp add: axp_with_def NUM_ADC_CHANNELS_def)

subsection \<open>Coulomb counters\<close>

lemma cc_parse_be:
  "unat (axp_cc_parse [b0, b1, b2, b3]) =
     unat b0 * 2 ^ 24 + unat b1 * 2 ^ 16 + unat b2 * 2 ^ 8 + unat b3"
proof -
  have lt: "unat b0 < 256" "unat b1 < 256" "unat b2 < 256" "unat b3 < 256"
    using unsigned_less[of b0, where 'a=nat] unsigned_less[of b1, where 'a=nat]
      unsigned_less[of b2, where 'a=nat] unsigned_less[of b3, where 'a=nat] by simp_all
  let ?a = "push_bit 24 (ucast b0) :: u32" and ?b = "push_bit 16 (ucast b1) :: u32"
  and ?c = "push_bit 8 (ucast b2) :: u32" and ?d = "ucast b3 :: u32"
  have e3: "?c OR ?d = ?c + ?d"
    by (rule disjunctive_add[symmetric]) (auto simp: bit_simps dest: bit_imp_le_length)
  have e2: "?b OR (?c OR ?d) = ?b + (?c OR ?d)"
    by (rule disjunctive_add[symmetric]) (auto simp: bit_simps dest: bit_imp_le_length)
  have e1: "?a OR (?b OR (?c OR ?d)) = ?a + (?b OR (?c OR ?d))"
    by (rule disjunctive_add[symmetric]) (auto simp: bit_simps dest: bit_imp_le_length)
  have eq: "axp_cc_parse [b0, b1, b2, b3] = ?a + (?b + (?c + ?d))"
    unfolding axp_cc_parse_def using e1 e2 e3 by simp
  show ?thesis
    unfolding eq using lt
    by (simp add: unat_word_ariths push_bit_eq_mult unsigned_ucast_eq take_bit_nat_eq_self)
qed


lemma upt_8: "[0..<8] = [0, 1, 2, 3, 4, 5, 6, Suc 6]"
  by (simp add: upt_rec)

lemma cc_parse_8:
  "axp_cc_parse [b0, b1, b2, b3, b4, b5, b6, b7] = axp_cc_parse [b0, b1, b2, b3]"
  by (simp add: axp_cc_parse_def)

text \<open>
  C8: \<open>axp_cc_read\<close> decodes the eight bytes read at the base register as two
  big-endian 32-bit values, bytes 0 to 3 for the charge and bytes 4 to 7 for the
  discharge; when the read fails, each accumulator that the caller passed is set to
  zero.
\<close>

theorem axp_cc_read_decodes:
  "(next_fails b \<longrightarrow>
      fst (axp_cc_read reg b charge discharge)
        = (map_option (\<lambda>_. 0) charge, map_option (\<lambda>_. 0) discharge)) \<and>
   (\<not> next_fails b \<longrightarrow>
      (\<exists>c d. fst (axp_cc_read reg b charge discharge)
                = (map_option (\<lambda>_. c) charge, map_option (\<lambda>_. d) discharge) \<and>
         unat c = unat (regfile b reg) * 2 ^ 24 + unat (regfile b (reg + 1)) * 2 ^ 16
                  + unat (regfile b (reg + 2)) * 2 ^ 8 + unat (regfile b (reg + 3)) \<and>
         unat d = unat (regfile b (reg + 4)) * 2 ^ 24 + unat (regfile b (reg + 5)) * 2 ^ 16
                  + unat (regfile b (reg + 6)) * 2 ^ 8 + unat (regfile b (reg + 7))))"
proof -
  have bad: "fst (axp_cc_read reg b charge discharge)
        = (map_option (\<lambda>_. 0) charge, map_option (\<lambda>_. 0) discharge)" if "next_fails b"
    using that by (simp add: axp_cc_read_def i2c_reg_read_def)
  have good: "fst (axp_cc_read reg b charge discharge)
        = (map_option (\<lambda>_. axp_cc_parse [regfile b reg, regfile b (reg + 1),
                                            regfile b (reg + 2), regfile b (reg + 3)]) charge,
           map_option (\<lambda>_. axp_cc_parse [regfile b (reg + 4), regfile b (reg + 5),
                                            regfile b (reg + 6), regfile b (reg + 7)]) discharge)"
    if "\<not> next_fails b"
    using that by (simp add: axp_cc_read_def i2c_reg_read_def upt_8 cc_parse_8)
  show ?thesis
    using bad good cc_parse_be by blast
qed

theorem axp_cc_read_decodes_witness:
  "next_fails ((quiet_bus (all_regs 7))\<lparr>faults := [True]\<rparr>) \<and>
   fst (axp_cc_read 0xb0 ((quiet_bus (all_regs 7))\<lparr>faults := [True]\<rparr>) (Some 5) (Some 9))
     = (Some 0, Some 0) \<and>
   \<not> next_fails (quiet_bus (all_regs 1)) \<and>
   (\<exists>c d. fst (axp_cc_read 0xb0 (quiet_bus (all_regs 1)) (Some 5) (Some 9)) = (Some c, Some d)
      \<and> unat c = 16843009 \<and> unat d = 16843009)"
  using axp_cc_read_decodes [of "(quiet_bus (all_regs 7))\<lparr>faults := [True]\<rparr>" "0xb0" "Some 5" "Some 9"]
        axp_cc_read_decodes [of "quiet_bus (all_regs 1)" "0xb0" "Some 5" "Some 9"]
  by (simp add: next_fails_def all_regs_def quiet_bus_def)

subsection \<open>Battery status\<close>

text \<open>
  C6: the tests of \<open>axp_battery_status\<close> run in sequence, the charging bit first. It
  returns Charging whenever the read of the power
  status register succeeds and bit \<open>0x04\<close> is set, whatever the other bits; Discharging
  whenever the read succeeds, bit \<open>0x04\<close> is clear and no bit of \<open>0xf0\<close> is set, and
  whenever the read fails; and Full only when the read succeeded, a bit of \<open>0xf0\<close> is
  set, bit \<open>0x04\<close> is clear and the raw reading of the discharge current is zero.
\<close>

theorem axp_battery_status_cases:
  "(\<not> next_fails b \<and> uint (regfile b reg) AND 0x04 \<noteq> 0 \<longrightarrow>
      fst (axp_battery_status reg axp b) = AXP_BATT_CHARGING) \<and>
   (\<not> next_fails b \<and> uint (regfile b reg) AND 0x04 = 0 \<and> uint (regfile b reg) AND 0xf0 = 0 \<longrightarrow>
      fst (axp_battery_status reg axp b) = AXP_BATT_DISCHARGING) \<and>
   (next_fails b \<longrightarrow> fst (axp_battery_status reg axp b) = AXP_BATT_DISCHARGING) \<and>
   (fst (axp_battery_status reg axp b) = AXP_BATT_FULL \<longrightarrow>
      \<not> next_fails b \<and> uint (regfile b reg) AND 0xf0 \<noteq> 0 \<and> uint (regfile b reg) AND 0x04 = 0 \<and>
      fst (axp_adc_read_raw axp (issue (Rd reg 1) b) ADC_DISCHARGE_CURRENT) = 0)"
  by (auto simp add: axp_battery_status_def i2c_reg_read1_eq split: prod.splits if_splits)

theorem axp_battery_status_cases_witness:
  "(\<not> next_fails (quiet_bus (all_regs 0x04)) \<and>
    uint (regfile (quiet_bus (all_regs 0x04)) 0) AND 0x04 \<noteq> 0 \<and>
    fst (axp_battery_status 0 (axp_with 0x100) (quiet_bus (all_regs 0x04))) = AXP_BATT_CHARGING) \<and>
   (\<not> next_fails (quiet_bus (all_regs 0x03)) \<and>
    uint (regfile (quiet_bus (all_regs 0x03)) 0) AND 0x04 = 0 \<and>
    uint (regfile (quiet_bus (all_regs 0x03)) 0) AND 0xf0 = 0 \<and>
    fst (axp_battery_status 0 (axp_with 0x100) (quiet_bus (all_regs 0x03))) = AXP_BATT_DISCHARGING) \<and>
   (next_fails ((quiet_bus (all_regs 0x04))\<lparr>faults := [True]\<rparr>) \<and>
    fst (axp_battery_status 0 (axp_with 0x100) ((quiet_bus (all_regs 0x04))\<lparr>faults := [True]\<rparr>))
      = AXP_BATT_DISCHARGING) \<and>
   (fst (axp_battery_status 0 (axp_with 0x100) (quiet_bus ((all_regs 0)(0 := 0x10)))) = AXP_BATT_FULL \<and>
    uint (regfile (quiet_bus ((all_regs 0)(0 := 0x10))) 0) AND 0xf0 \<noteq> 0 \<and>
    fst (axp_adc_read_raw (axp_with 0x100) (issue (Rd 0 1) (quiet_bus ((all_regs 0)(0 := 0x10))))
           ADC_DISCHARGE_CURRENT) = 0)"
proof -
  have full: "fst (axp_battery_status 0 (axp_with 0x100) (quiet_bus ((all_regs 0)(0 := 0x10))))
                = AXP_BATT_FULL"
    by (simp add: axp_battery_status_def i2c_reg_read1_eq axp_adc_read_raw_def i2c_reg_read_def
          issue_def next_fails_def quiet_bus_def all_regs_def axp_with_def axp_adc_info_def
          adc_consts AXP_REG_ADCENABLE1_def AXP_REG_ADCENABLE2_def)
  show ?thesis
    using axp_battery_status_cases [of "quiet_bus (all_regs 0x04)" 0 "axp_with 0x100"]
          axp_battery_status_cases [of "quiet_bus (all_regs 0x03)" 0 "axp_with 0x100"]
          axp_battery_status_cases [of "(quiet_bus (all_regs 0x04))\<lparr>faults := [True]\<rparr>" 0 "axp_with 0x100"]
          axp_battery_status_cases [of "quiet_bus ((all_regs 0)(0 := 0x10))" 0 "axp_with 0x100"]
          full
    by (simp add: next_fails_def all_regs_def quiet_bus_def)
qed

subsection \<open>Enabling ADC channels\<close>

lemma xlog_write: "xlog (snd (i2c_reg_write b reg vs)) = xlog b @ [Wr reg vs]"
  by (simp add: i2c_reg_write_def issue_def)

lemma regfile_write_failed: "next_fails b \<Longrightarrow> regfile (snd (i2c_reg_write b reg vs)) = regfile b"
  by (simp add: i2c_reg_write_def issue_def)

lemma length_adc_enable_step: "length (adc_enable_step m i regs) = length regs"
  by (simp add: adc_enable_step_def Let_def)

lemma length_fold_adc_enable_step:
  "length (fold (adc_enable_step m) xs regs) = length regs"
  by (induction xs arbitrary: regs) (simp_all add: length_adc_enable_step)

lemma length_adc_enable_regs: "length (adc_enable_regs m) = 2"
  by (simp add: adc_enable_regs_def length_fold_adc_enable_step)

lemma test_bit: "(m AND push_bit n 1 \<noteq> 0) = bit (m::int) n"
  by (simp add: bit_iff_and_push_bit_not_eq_0)

lemma test_pair:
  "(m AND (push_bit (nat ADC_CHARGE_CURRENT) 1 OR push_bit (nat ADC_DISCHARGE_CURRENT) 1) \<noteq> 0)
     = (bit (m::int) 7 \<or> bit m 8)"
proof -
  have n: "nat ADC_CHARGE_CURRENT = 7" "nat ADC_DISCHARGE_CURRENT = 8"
    by (simp_all add: adc_consts)
  have "(m AND (push_bit 7 1 OR push_bit 8 1) = 0) = (\<not> bit m 7 \<and> \<not> bit m 8)"
    unfolding bit.conj_disj_distrib or_eq_0_iff test_bit[symmetric] by simp
  then show ?thesis
    unfolding n by blast
qed

lemma bit_adc_shared_enable:
  "bit (adc_shared_enable m) n = (bit m n \<or> (n = 7 \<or> n = 8) \<and> (bit m 7 \<or> bit m 8))"
proof -
  have n: "nat ADC_CHARGE_CURRENT = 7" "nat ADC_DISCHARGE_CURRENT = 8"
    by (simp_all add: adc_consts)
  have p: "bit (push_bit 7 (1::int)) n = (n = 7)" "bit (push_bit 8 (1::int)) n = (n = 8)"
    by (auto simp only: bit_push_bit_iff_int bit_1_iff)
  show ?thesis
    unfolding adc_shared_enable_def test_pair
    unfolding n by (simp only: bit_or_iff p split: if_split) blast
qed

lemma adc_shared_enable_includes: "m AND adc_shared_enable m = m"
  by (rule bit_eqI) (auto simp add: bit_and_iff bit_adc_shared_enable)

lemma adc_shared_enable_paired: "bit m 7 = bit m 8 \<Longrightarrow> adc_shared_enable m = m"
  by (rule bit_eqI) (auto simp add: bit_adc_shared_enable)

lemma set_enabled_noop: "m = adc_enable axp \<Longrightarrow> axp_adc_set_enabled m (axp, b) = (axp, b)"
  by (simp add: axp_adc_set_enabled_def)

lemma set_enabled_write:
  assumes "m \<noteq> adc_enable axp"
  shows "\<exists>regs. length regs = 2 \<and> (bit m 10 \<longrightarrow> bit (regs ! 0) 6 \<and> bit (regs ! 0) 7) \<and>
           axp_adc_set_enabled m (axp, b) =
             (axp\<lparr>adc_enable := adc_shared_enable m\<rparr>,
              snd (i2c_reg_write b AXP_REG_ADCENABLE1 regs))"
proof -
  have b10: "bit (adc_shared_enable m) 10 = bit m 10"
    by (simp add: bit_adc_shared_enable)
  define regs where "regs = adc_enable_regs m"
  define regs1 where "regs1 = (if bit m 10
      then regs[0 := regs ! 0 OR push_bit 6 1 OR push_bit 7 1] else regs)"
  have len: "length regs1 = 2"
    by (simp add: regs1_def regs_def length_adc_enable_regs)
  have bits: "bit m 10 \<longrightarrow> bit (regs1 ! 0) 6 \<and> bit (regs1 ! 0) 7"
    by (simp add: regs1_def regs_def length_adc_enable_regs bit_simps)
  have "axp_adc_set_enabled m (axp, b) =
          (axp\<lparr>adc_enable := adc_shared_enable m\<rparr>, snd (i2c_reg_write b AXP_REG_ADCENABLE1 regs1))"
    using assms
    apply (simp only: axp_adc_set_enabled_def Let_def test_bit)
    apply (simp add: b10 regs1_def regs_def axp_adc_info_def adc_consts)
    done
  with len bits show ?thesis by blast
qed

text \<open>
  C10: \<open>axp_adc_set_enabled\<close> stores the requested bits, with the charge and discharge
  current paired, whatever the outcome of the write of the two enable registers: when the
  write fails the registers keep their values and \<open>axp_adc_get_enabled\<close> still reports the
  new mask.
\<close>

theorem axp_adc_set_enabled_no_rollback:
  "axp_adc_get_enabled (fst (axp_adc_set_enabled m (axp, b)))
     = (if m = adc_enable axp then m else adc_shared_enable m) \<and>
   (m \<noteq> adc_enable axp \<and> next_fails b \<longrightarrow>
      regfile (snd (axp_adc_set_enabled m (axp, b))) = regfile b \<and>
      axp_adc_get_enabled (fst (axp_adc_set_enabled m (axp, b))) = adc_shared_enable m)"
proof (cases "m = adc_enable axp")
  case True
  then show ?thesis
    by (simp add: set_enabled_noop axp_adc_get_enabled_def)
next
  case False
  from set_enabled_write[OF False, of b] obtain regs where
    "axp_adc_set_enabled m (axp, b) =
       (axp\<lparr>adc_enable := adc_shared_enable m\<rparr>, snd (i2c_reg_write b AXP_REG_ADCENABLE1 regs))"
    by blast
  with False show ?thesis
    by (simp add: axp_adc_get_enabled_def regfile_write_failed)
qed

theorem axp_adc_set_enabled_no_rollback_witness:
  "(0x40::int) \<noteq> adc_enable (axp_with 0) \<and>
   next_fails ((quiet_bus (all_regs 0))\<lparr>faults := [True]\<rparr>) \<and>
   regfile (snd (axp_adc_set_enabled 0x40 (axp_with 0, (quiet_bus (all_regs 0))\<lparr>faults := [True]\<rparr>)))
     = all_regs 0 \<and>
   axp_adc_get_enabled
     (fst (axp_adc_set_enabled 0x40 (axp_with 0, (quiet_bus (all_regs 0))\<lparr>faults := [True]\<rparr>)))
     = 0x40"
proof -
  have s: "adc_shared_enable 0x40 = 0x40"
    by (simp add: adc_shared_enable_def adc_consts)
  show ?thesis
    using axp_adc_set_enabled_no_rollback
            [of "0x40" "axp_with 0" "(quiet_bus (all_regs 0))\<lparr>faults := [True]\<rparr>"]
    by (simp add: s axp_with_def next_fails_def quiet_bus_def)
qed

text \<open>
  C2, amended: a call of \<open>axp_adc_set_enabled\<close> with the mask that the driver already
  holds issues no transaction and changes nothing; any other call issues exactly one
  transaction, a write of the two enable registers, and when the battery power is
  requested the image written has the enable bits of the discharge current and the
  battery voltage (bits 6 and 7 of the first register) set. A second call with the same
  \<open>m\<close> changes nothing and issues nothing when \<open>m\<close> requests both or neither of the charge
  and the discharge current. After a call the mask includes every requested bit, and it
  includes both the charge and the discharge current when either was requested and the
  mask held both or neither before; a mask that holds both or neither still does after
  the call.
\<close>

theorem axp_adc_set_enabled_twice:
  "(m = adc_enable axp \<longrightarrow> axp_adc_set_enabled m (axp, b) = (axp, b)) \<and>
   (m \<noteq> adc_enable axp \<longrightarrow>
      (\<exists>regs. length regs = 2 \<and>
         xlog (snd (axp_adc_set_enabled m (axp, b))) = xlog b @ [Wr AXP_REG_ADCENABLE1 regs] \<and>
         (bit m (nat ADC_BATTERY_POWER) \<longrightarrow> bit (regs ! 0) 6 \<and> bit (regs ! 0) 7))) \<and>
   (bit m (nat ADC_CHARGE_CURRENT) = bit m (nat ADC_DISCHARGE_CURRENT) \<longrightarrow>
      axp_adc_set_enabled m (axp_adc_set_enabled m (axp, b)) = axp_adc_set_enabled m (axp, b)) \<and>
   m AND axp_adc_get_enabled (fst (axp_adc_set_enabled m (axp, b))) = m \<and>
   (bit (adc_enable axp) (nat ADC_CHARGE_CURRENT) = bit (adc_enable axp) (nat ADC_DISCHARGE_CURRENT)
    \<and> (bit m (nat ADC_CHARGE_CURRENT) \<or> bit m (nat ADC_DISCHARGE_CURRENT)) \<longrightarrow>
      bit (axp_adc_get_enabled (fst (axp_adc_set_enabled m (axp, b)))) (nat ADC_CHARGE_CURRENT) \<and>
      bit (axp_adc_get_enabled (fst (axp_adc_set_enabled m (axp, b)))) (nat ADC_DISCHARGE_CURRENT)) \<and>
   (bit (adc_enable axp) (nat ADC_CHARGE_CURRENT) = bit (adc_enable axp) (nat ADC_DISCHARGE_CURRENT)
    \<longrightarrow>
      bit (axp_adc_get_enabled (fst (axp_adc_set_enabled m (axp, b)))) (nat ADC_CHARGE_CURRENT)
        = bit (axp_adc_get_enabled (fst (axp_adc_set_enabled m (axp, b)))) (nat ADC_DISCHARGE_CURRENT))"
proof (cases "m = adc_enable axp")
  case True
  then show ?thesis
    by (auto simp add: set_enabled_noop axp_adc_get_enabled_def adc_consts)
next
  case False
  from set_enabled_write[OF False, of b] obtain regs where
    r: "length regs = 2" "bit m 10 \<longrightarrow> bit (regs ! 0) 6 \<and> bit (regs ! 0) 7"
    and eq: "axp_adc_set_enabled m (axp, b) =
       (axp\<lparr>adc_enable := adc_shared_enable m\<rparr>, snd (i2c_reg_write b AXP_REG_ADCENABLE1 regs))"
    by blast
  have n: "nat ADC_CHARGE_CURRENT = 7" "nat ADC_DISCHARGE_CURRENT = 8" "nat ADC_BATTERY_POWER = 10"
    by (simp_all add: adc_consts)
  have w: "\<exists>regs. length regs = 2 \<and>
         xlog (snd (axp_adc_set_enabled m (axp, b))) = xlog b @ [Wr AXP_REG_ADCENABLE1 regs] \<and>
         (bit m (nat ADC_BATTERY_POWER) \<longrightarrow> bit (regs ! 0) 6 \<and> bit (regs ! 0) 7)"
    using r by (auto simp add: eq xlog_write n)
  have again: "axp_adc_set_enabled m (axp_adc_set_enabled m (axp, b)) = axp_adc_set_enabled m (axp, b)"
    if "bit m 7 = bit m 8"
    using adc_shared_enable_paired[OF that] by (simp add: eq set_enabled_noop)
  have incl: "m AND axp_adc_get_enabled (fst (axp_adc_set_enabled m (axp, b))) = m"
    by (simp add: eq axp_adc_get_enabled_def adc_shared_enable_includes)
  have both: "bit (axp_adc_get_enabled (fst (axp_adc_set_enabled m (axp, b)))) 7 \<and>
              bit (axp_adc_get_enabled (fst (axp_adc_set_enabled m (axp, b)))) 8"
    if "bit m 7 \<or> bit m 8"
    using that by (simp add: eq axp_adc_get_enabled_def bit_adc_shared_enable)
  have pres: "bit (axp_adc_get_enabled (fst (axp_adc_set_enabled m (axp, b)))) 7
              = bit (axp_adc_get_enabled (fst (axp_adc_set_enabled m (axp, b)))) 8"
    by (auto simp add: eq axp_adc_get_enabled_def bit_adc_shared_enable)
  show ?thesis
    using False w again incl both pres unfolding n by blast
qed

theorem axp_adc_set_enabled_twice_witness:
  "((0x40::int) = adc_enable (axp_with 0x40) \<and>
    axp_adc_set_enabled 0x40 (axp_with 0x40, quiet_bus (all_regs 0))
      = (axp_with 0x40, quiet_bus (all_regs 0))) \<and>
   ((0x400::int) \<noteq> adc_enable (axp_with 0) \<and> bit (0x400::int) (nat ADC_BATTERY_POWER) \<and>
    (\<exists>regs. length regs = 2 \<and>
       xlog (snd (axp_adc_set_enabled 0x400 (axp_with 0, quiet_bus (all_regs 0))))
         = [Wr AXP_REG_ADCENABLE1 regs] \<and>
       bit (regs ! 0) 6 \<and> bit (regs ! 0) 7)) \<and>
   (bit (0x180::int) (nat ADC_CHARGE_CURRENT) = bit (0x180::int) (nat ADC_DISCHARGE_CURRENT) \<and>
    axp_adc_set_enabled 0x180 (axp_adc_set_enabled 0x180 (axp_with 0, quiet_bus (all_regs 0)))
      = axp_adc_set_enabled 0x180 (axp_with 0, quiet_bus (all_regs 0))) \<and>
   (bit (adc_enable (axp_with 0)) (nat ADC_CHARGE_CURRENT)
      = bit (adc_enable (axp_with 0)) (nat ADC_DISCHARGE_CURRENT) \<and>
    bit (0x80::int) (nat ADC_CHARGE_CURRENT) \<and>
    bit (axp_adc_get_enabled (fst (axp_adc_set_enabled 0x80 (axp_with 0, quiet_bus (all_regs 0)))))
      (nat ADC_DISCHARGE_CURRENT))"
  using axp_adc_set_enabled_twice [of "0x40" "axp_with 0x40" "quiet_bus (all_regs 0)"]
        axp_adc_set_enabled_twice [of "0x400" "axp_with 0" "quiet_bus (all_regs 0)"]
        axp_adc_set_enabled_twice [of "0x180" "axp_with 0" "quiet_bus (all_regs 0)"]
        axp_adc_set_enabled_twice [of "0x80" "axp_with 0" "quiet_bus (all_regs 0)"]
  by (simp add: axp_with_def adc_consts quiet_bus_def)

lemma set_enabled_write_log:
  assumes "m \<noteq> adc_enable axp"
  shows "adc_enable (fst (axp_adc_set_enabled m (axp, b))) = adc_shared_enable m"
    and "length (xlog (snd (axp_adc_set_enabled m (axp, b)))) = Suc (length (xlog b))"
  using set_enabled_write[OF assms, of b] by (auto simp add: xlog_write)

text \<open>
  The claim as stated fails in three ways. From the mask 0, two calls that request the
  charge current alone issue two writes, since the second request differs from the paired
  mask that the first call stored; two calls that request nothing issue no write at all;
  and after a request of the battery power alone the mask holds neither the discharge
  current nor the battery voltage, which are forced in the register image only.
\<close>

theorem axp_adc_set_enabled_twice_counterexample:
  "length (xlog (snd (axp_adc_set_enabled 0x80
      (axp_adc_set_enabled 0x80 (axp_with 0, quiet_bus (all_regs 0)))))) = 2 \<and>
   xlog (snd (axp_adc_set_enabled 0
      (axp_adc_set_enabled 0 (axp_with 0, quiet_bus (all_regs 0))))) = [] \<and>
   \<not> bit (axp_adc_get_enabled (fst (axp_adc_set_enabled 0x400 (axp_with 0, quiet_bus (all_regs 0)))))
        (nat ADC_DISCHARGE_CURRENT) \<and>
   \<not> bit (axp_adc_get_enabled (fst (axp_adc_set_enabled 0x400 (axp_with 0, quiet_bus (all_regs 0)))))
        (nat ADC_BATTERY_VOLTAGE)"
proof -
  let ?b = "quiet_bus (all_regs 0)"
  have s80: "adc_shared_enable 0x80 = 0x180" and s400: "adc_shared_enable 0x400 = 0x400"
    by (simp_all add: adc_shared_enable_def adc_consts)
  have ne: "(0x80::int) \<noteq> adc_enable (axp_with 0)" "(0x400::int) \<noteq> adc_enable (axp_with 0)"
    and eq0: "(0::int) = adc_enable (axp_with 0)" and lg: "xlog ?b = []"
    by (simp_all add: axp_with_def quiet_bus_def)
  obtain a1 b1 where st1: "axp_adc_set_enabled 0x80 (axp_with 0, ?b) = (a1, b1)"
    by (cases "axp_adc_set_enabled 0x80 (axp_with 0, ?b)")
  have f1: "adc_enable a1 = 0x180" "length (xlog b1) = 1"
    using set_enabled_write_log[OF ne(1), of ?b] unfolding st1 s80 lg by simp_all
  have two: "length (xlog (snd (axp_adc_set_enabled 0x80 (a1, b1)))) = 2"
    using set_enabled_write_log(2)[of "0x80" a1 b1] f1 by simp
  have none: "xlog (snd (axp_adc_set_enabled 0 (axp_adc_set_enabled 0 (axp_with 0, ?b)))) = []"
    unfolding set_enabled_noop[OF eq0] by (simp add: lg)
  have m: "axp_adc_get_enabled (fst (axp_adc_set_enabled 0x400 (axp_with 0, ?b))) = 0x400"
    using set_enabled_write_log(1)[OF ne(2), of ?b]
    by (simp add: s400 axp_adc_get_enabled_def)
  show ?thesis
    using two none unfolding st1 m by (simp add: adc_consts)
qed

subsection \<open>Supplies\<close>

named_theorems supply_consts

declare AXP_SUPPLY_DCDC1_def [supply_consts] AXP_SUPPLY_DCDC2_def [supply_consts]
  AXP_SUPPLY_DCDC3_def [supply_consts] AXP_SUPPLY_LDO1_def [supply_consts]
  AXP_SUPPLY_LDO2_def [supply_consts] AXP_SUPPLY_LDO3_def [supply_consts]
  AXP_SUPPLY_LDO_IO0_def [supply_consts]

lemma en_test_never: "\<not> en_test r bt"
  by (simp add: en_test_def)

lemma supply_read_voltage_not_disabled:
  "fst (supply_read_voltage info b) \<noteq> AXP_SUPPLY_DISABLED"
  by (simp add: supply_read_voltage_def i2c_reg_read1_eq Let_def)

lemma get_voltage_never_disabled:
  "supply \<noteq> AXP_SUPPLY_LDO_IO0 \<Longrightarrow> \<not> next_fails b \<Longrightarrow>
   fst (axp_supply_get_voltage b supply) \<noteq> AXP_SUPPLY_DISABLED"
  by (simp add: axp_supply_get_voltage_def Let_def i2c_reg_read1_eq en_test_never
        supply_read_voltage_not_disabled)

lemma set_voltage_out_of_range:
  "0 < voltage \<Longrightarrow> step_mV (axp_supply_info ! nat supply) \<noteq> 0 \<Longrightarrow>
   voltage < min_mV (axp_supply_info ! nat supply) \<or> max_mV (axp_supply_info ! nat supply) < voltage \<Longrightarrow>
   axp_supply_set_voltage supply voltage b = b"
  by (simp add: axp_supply_set_voltage_def Let_def)

text \<open>
  C1 asks that, for a supply other than \<open>LDO_IO0\<close> whose enable register is read
  successfully, \<open>axp_supply_get_voltage\<close> return \<open>AXP_SUPPLY_DISABLED\<close> exactly when the
  enable bit is clear. The code does not: the test never holds (\<open>en_test_never\<close>), so the
  function never answers "disabled" after a successful read
  (\<open>get_voltage_never_disabled\<close>). Here every register holds 0, so the enable bit of
  \<open>DCDC1\<close> is clear, and the result is 700 mV.
\<close>

theorem axp_supply_get_voltage_enable_bit_ignored:
  "\<not> bit (regfile (quiet_bus (all_regs 0)) (en_reg (axp_supply_info ! nat AXP_SUPPLY_DCDC1)))
         (unat (en_bit (axp_supply_info ! nat AXP_SUPPLY_DCDC1))) \<and>
   fst (axp_supply_get_voltage (quiet_bus (all_regs 0)) AXP_SUPPLY_DCDC1) = Millivolts 700"
  by (simp add: axp_supply_get_voltage_def axp_supply_info_def supply_consts i2c_reg_read1_eq
        en_test_def supply_read_voltage_def all_regs_def issue_def next_fails_def quiet_bus_def)

text \<open>
  Where the field of the voltage starts at bit 0 of its register (\<open>DCDC1\<close>, \<open>DCDC2\<close>,
  \<open>DCDC3\<close>, \<open>LDO3\<close>), setting \<open>min_mV + k * step_mV\<close> and getting it give the same
  value when no transaction fails.
\<close>

lemma field_roundtrip:
  fixes v :: u8
  assumes "0 \<le> k" "k < 2 ^ n" "n \<le> 8"
    and that: "v' = ((v AND NOT (mask n)) OR word_of_int k) AND mask n"
  shows "uint v' = k"
proof -
  have "v' = take_bit n (word_of_int k :: u8)"
    unfolding that by (rule bit_eqI) (auto simp add: bit_simps)
  then have "uint v' = take_bit n (take_bit 8 k)"
    by (simp add: unsigned_take_bit_eq uint_word_of_int_eq)
  also have "\<dots> = k"
    using assms by (simp add: take_bit_int_eq_self min_def)
  finally show ?thesis .
qed

lemma ffs_mask: "0 < n \<Longrightarrow> find_first_set_bit (uint (mask n :: u8)) = 0"
  by (simp add: find_first_set_bit_def upt_conv_Cons bit_simps)


lemma faults_issue: "faults b = [] \<Longrightarrow> faults (issue x b) = []"
  by (simp add: issue_def)

lemma not_fails: "faults b = [] \<Longrightarrow> \<not> next_fails b"
  by (simp add: next_fails_def)

lemma modify1_ok:
  assumes "faults b = []"
  shows "faults (snd (i2c_reg_modify1 b reg clr setv)) = []"
    and "regfile (snd (i2c_reg_modify1 b reg clr setv))
           = (regfile b)(reg := (regfile b reg AND NOT clr) OR setv)"
  using assms
  by (simp_all add: i2c_reg_modify1_def i2c_reg_read1_eq i2c_reg_write_def next_fails_def issue_def)

lemma set_get_roundtrip:
  assumes info: "info = axp_supply_info ! nat supply"
    and regs: "volt_reg info \<noteq> 0" "volt_reg_mask info = mask n" "0 < n" "n \<le> 8"
      "en_reg info \<noteq> 0" "en_reg info \<noteq> volt_reg info" "en_bit info \<noteq> 0xff"
      "supply \<noteq> AXP_SUPPLY_LDO_IO0"
    and rng: "0 < step_mV info" "0 < min_mV info" "0 \<le> k" "k < 2 ^ n"
      "min_mV info + k * step_mV info \<le> max_mV info"
    and ok: "faults b = []"
  shows "fst (axp_supply_get_voltage
                (axp_supply_set_voltage supply (min_mV info + k * step_mV info) b) supply)
           = Millivolts (min_mV info + k * step_mV info)"
proof -
  let ?v = "min_mV info + k * step_mV info"
  let ?w = "(regfile b (volt_reg info) AND NOT (mask n)) OR word_of_int k"
  have kstep: "0 \<le> k * step_mV info" using rng by simp
  have m0: "(mask n :: u8) \<noteq> 0"
    using regs(3,4) by (simp add: mask_eq_0_iff)
  have regval: "(?v - min_mV info) sdiv step_mV info = k"
    using rng kstep by (simp add: sdiv_nonneg)
  define b1 where "b1 = snd (i2c_reg_modify1 b (volt_reg info) (mask n) (word_of_int k))"
  have b1: "faults b1 = []" "regfile b1 = (regfile b)(volt_reg info := ?w)"
    using modify1_ok[OF ok] by (simp_all add: b1_def)
  define b2 where "b2 = snd (i2c_reg_setbit1 b1 (en_reg info) (unat (en_bit info)) 1)"
  have b2: "faults b2 = []" "regfile b2 (volt_reg info) = ?w"
    using modify1_ok[OF b1(1)] regs(6) by (simp_all add: b2_def i2c_reg_setbit1_def b1(2))
  have nneg: "\<not> k * step_mV info < 0" and vpos: "0 < ?v"
    using kstep rng(2) by linarith+
  have setv: "axp_supply_set_voltage supply ?v b = b2"
    using regs rng m0 regval
    by (simp add: axp_supply_set_voltage_def info[symmetric] Let_def b2_def b1_def nneg vpos)
  have r: "uint (?w AND mask n) = k"
    using field_roundtrip[of k n "?w AND mask n" "regfile b (volt_reg info)"] rng regs by simp
  have rd: "supply_read_voltage info (issue x b2) = (Millivolts ?v, issue (Rd (volt_reg info) 1) (issue x b2))" for x
    using m0 regs(3) r
    by (simp add: supply_read_voltage_def i2c_reg_read1_eq not_fails faults_issue b2 regs(2)
          ffs_mask issue_def Let_def uint_and[symmetric])
  show ?thesis
    unfolding setv using regs
    by (simp add: axp_supply_get_voltage_def info[symmetric] Let_def i2c_reg_read1_eq
          not_fails b2 en_test_never rd)
qed


lemma set_get_roundtrip_low_fields:
  assumes s: "supply = AXP_SUPPLY_DCDC1 \<or> supply = AXP_SUPPLY_DCDC2 \<or>
              supply = AXP_SUPPLY_DCDC3 \<or> supply = AXP_SUPPLY_LDO3"
    and k: "0 \<le> k"
      "min_mV (axp_supply_info ! nat supply) + k * step_mV (axp_supply_info ! nat supply)
         \<le> max_mV (axp_supply_info ! nat supply)"
    and ok: "faults b = []"
  shows "fst (axp_supply_get_voltage
           (axp_supply_set_voltage supply
              (min_mV (axp_supply_info ! nat supply) + k * step_mV (axp_supply_info ! nat supply)) b)
           supply)
         = Millivolts (min_mV (axp_supply_info ! nat supply)
                        + k * step_mV (axp_supply_info ! nat supply))"
proof -
  have m: "(0x7f :: u8) = mask 7" "(0x3f :: u8) = mask 6" "(0x0f :: u8) = mask 4"
    by (simp_all add: mask_eq_exp_minus_1)
  from s consider "supply = AXP_SUPPLY_DCDC1" | "supply = AXP_SUPPLY_DCDC2"
    | "supply = AXP_SUPPLY_DCDC3" | "supply = AXP_SUPPLY_LDO3" by blast
  then show ?thesis
  proof cases
    case 1
    show ?thesis
      by (rule set_get_roundtrip[where n = 7, OF refl _ _ _ _ _ _ _ _ _ _ k(1) _ k(2) ok])
         (use k in \<open>simp_all add: 1 axp_supply_info_def supply_consts m\<close>)
  next
    case 2
    show ?thesis
      by (rule set_get_roundtrip[where n = 6, OF refl _ _ _ _ _ _ _ _ _ _ k(1) _ k(2) ok])
         (use k in \<open>simp_all add: 2 axp_supply_info_def supply_consts m\<close>)
  next
    case 3
    show ?thesis
      by (rule set_get_roundtrip[where n = 7, OF refl _ _ _ _ _ _ _ _ _ _ k(1) _ k(2) ok])
         (use k in \<open>simp_all add: 3 axp_supply_info_def supply_consts m\<close>)
  next
    case 4
    show ?thesis
      by (rule set_get_roundtrip[where n = 4, OF refl _ _ _ _ _ _ _ _ _ _ k(1) _ k(2) ok])
         (use k in \<open>simp_all add: 4 axp_supply_info_def supply_consts m\<close>)
  qed
qed

text \<open>
  C3 asks that setting a supply to \<open>min_mV + k * step_mV\<close> and getting it give the same
  value. For \<open>LDO2\<close>, whose field is the high nibble of register \<open>0x28\<close>, the code passes
  the unshifted \<open>regval\<close> to \<open>i2c_reg_modify1\<close>: from registers that hold 0, setting 2000 mV
  (k = 2) leaves \<open>0x02\<close> in the register, in the field of \<open>LDO3\<close>, sets the enable bit, and
  the voltage read back is 1800 mV. The round trip does hold for the four supplies whose
  field starts at bit 0 (\<open>set_get_roundtrip_low_fields\<close>), and a positive voltage outside
  the range issues no transaction (\<open>set_voltage_out_of_range\<close>).
\<close>

theorem axp_supply_set_voltage_ldo2_roundtrip_fails:
  "regfile (axp_supply_set_voltage AXP_SUPPLY_LDO2 2000 (quiet_bus (all_regs 0))) 0x28 = 0x02 \<and>
   regfile (axp_supply_set_voltage AXP_SUPPLY_LDO2 2000 (quiet_bus (all_regs 0))) 0x12 = 0x04 \<and>
   fst (axp_supply_get_voltage
          (axp_supply_set_voltage AXP_SUPPLY_LDO2 2000 (quiet_bus (all_regs 0))) AXP_SUPPLY_LDO2)
     = Millivolts 1800"
  by (simp add: axp_supply_get_voltage_def axp_supply_set_voltage_def axp_supply_info_def
        supply_consts i2c_reg_read1_eq i2c_reg_modify1_def i2c_reg_setbit1_def i2c_reg_write_def
        en_test_def supply_read_voltage_def all_regs_def issue_def next_fails_def quiet_bus_def
        find_first_set_bit_def upt_conv_Cons signed_divide_int_def)


subsection \<open>Simulated sectors\<close>

lemma denied_write_sector [simp]: "denied (write_sector start buf i fs) = denied fs"
  by (simp add: write_sector_def Let_def)

lemma files_write_sector:
  "files (write_sector start buf i fs) nm =
     (if sector_name start i = nm \<and> \<not> denied fs nm then Some (take 512 buf) else files fs nm)"
  by (auto simp add: write_sector_def Let_def)

lemma write_fold:
  "denied (fold (write_sector start buf) xs fs) = denied fs \<and>
   files (fold (write_sector start buf) xs fs) nm =
     (if (\<exists>i\<in>set xs. sector_name start i = nm) \<and> \<not> denied fs nm
      then Some (take 512 buf) else files fs nm)"
  by (induction xs arbitrary: fs) (auto simp add: files_write_sector)

lemma read_sector_missing:
  "files fs (sector_name start i) = None \<Longrightarrow> read_sector start fs i buf = buf"
  by (simp add: read_sector_def Let_def)

lemma read_fold_missing:
  "(\<forall>i\<in>set xs. files fs (sector_name start i) = None) \<Longrightarrow>
   fold (read_sector start fs) xs buf = buf"
  by (induction xs arbitrary: buf) (simp_all add: read_sector_missing)

lemma hexX_3F: "hexX 63 = ''3F''"
  by code_simp

lemma sector_name_3F: "sector_name (0x3F :: 32 word) 0 = ''sector3F.bin''"
  by (simp add: sector_name_def hexX_3F)

text \<open>
  C4, amended: \<open>ata_write_sectors\<close> returns 1 whatever happens to the files. For each
  \<open>i\<close> below \<open>count\<close> it creates or overwrites the file named \<open>sector\<close>, then \<open>start + i\<close>
  in upper-case hexadecimal, then \<open>.bin\<close>, unless that file cannot be opened; the file of the
  first sector holds the first 512 bytes of the buffer; no file of another name changes.
  \<open>ata_read_sectors\<close> returns 1; it leaves the buffer as it was when none of the files
  exists, and a read of one sector whose file holds 512 bytes copies them to the start of
  the buffer. Sector \<open>0x3F\<close> is the file \<open>sector3F.bin\<close>.
\<close>

theorem ata_sectors_files:
  "fst (ata_write_sectors start count buf fs) = 1 \<and>
   (\<forall>i<unat count. \<not> denied fs (sector_name start i) \<longrightarrow>
      sector_name start i \<in> dom (files (snd (ata_write_sectors start count buf fs)))) \<and>
   (0 < unat count \<and> \<not> denied fs (sector_name start 0) \<longrightarrow>
      files (snd (ata_write_sectors start count buf fs)) (sector_name start 0)
        = Some (take 512 buf)) \<and>
   ((\<forall>i<unat count. sector_name start i \<noteq> nm) \<longrightarrow>
      files (snd (ata_write_sectors start count buf fs)) nm = files fs nm) \<and>
   fst (ata_read_sectors start count buf fs) = 1 \<and>
   ((\<forall>i<unat count. files fs (sector_name start i) = None) \<longrightarrow>
      snd (ata_read_sectors start count buf fs) = buf) \<and>
   (\<not> denied fs (sector_name start 0) \<and> files fs (sector_name start 0) = Some content \<and>
    length content = 512 \<and> 512 \<le> length buf \<longrightarrow>
      snd (ata_read_sectors start 1 buf fs) = content @ drop 512 buf) \<and>
   sector_name (0x3F :: 32 word) 0 = ''sector3F.bin''"
proof -
  have w: "files (snd (ata_write_sectors start count buf fs)) n =
     (if (\<exists>i<unat count. sector_name start i = n) \<and> \<not> denied fs n
      then Some (take 512 buf) else files fs n)" for n
    using write_fold[of start buf "[0..<unat count]" fs n]
    by (auto simp add: ata_write_sectors_def)
  have a: "\<forall>i<unat count. \<not> denied fs (sector_name start i) \<longrightarrow>
      sector_name start i \<in> dom (files (snd (ata_write_sectors start count buf fs)))"
    by (auto simp add: w)
  have b: "0 < unat count \<and> \<not> denied fs (sector_name start 0) \<longrightarrow>
      files (snd (ata_write_sectors start count buf fs)) (sector_name start 0)
        = Some (take 512 buf)"
    by (auto simp add: w)
  have c: "(\<forall>i<unat count. sector_name start i \<noteq> nm) \<longrightarrow>
      files (snd (ata_write_sectors start count buf fs)) nm = files fs nm"
    by (auto simp add: w)
  have d: "(\<forall>i<unat count. files fs (sector_name start i) = None) \<longrightarrow>
      snd (ata_read_sectors start count buf fs) = buf"
    using read_fold_missing[of "[0..<unat count]" fs start buf]
    by (simp add: ata_read_sectors_def)
  have e: "\<not> denied fs (sector_name start 0) \<and> files fs (sector_name start 0) = Some content \<and>
    length content = 512 \<and> 512 \<le> length buf \<longrightarrow>
      snd (ata_read_sectors start 1 buf fs) = content @ drop 512 buf"
    by (simp add: ata_read_sectors_def read_sector_def)
  show ?thesis
    using a b c d e sector_name_3F
    by (simp add: ata_write_sectors_def ata_read_sectors_def)
qed

theorem ata_sectors_files_witness:
  "(0 < unat (1 :: u8) \<and> \<not> denied empty_fs (sector_name (0x3F :: 32 word) 0) \<and>
    sector_name (0x3F :: 32 word) 0
      \<in> dom (files (snd (ata_write_sectors (0x3F :: 32 word) 1 (replicate 512 0) empty_fs))) \<and>
    files (snd (ata_write_sectors (0x3F :: 32 word) 1 (replicate 512 0) empty_fs))
      (sector_name (0x3F :: 32 word) 0) = Some (replicate 512 0)) \<and>
   (sector_name (0x3F :: 32 word) 0 \<noteq> ''3F.bin'' \<and>
    files (snd (ata_write_sectors (0x3F :: 32 word) 1 (replicate 512 0) empty_fs)) ''3F.bin''
      = files empty_fs ''3F.bin'') \<and>
   (files empty_fs (sector_name (0x3F :: 32 word) 0) = None \<and>
    snd (ata_read_sectors (0x3F :: 32 word) 1 (replicate 512 0) empty_fs) = replicate 512 0) \<and>
   (files (empty_fs\<lparr>files := [''sector3F.bin'' \<mapsto> replicate 512 7]\<rparr>)
      (sector_name (0x3F :: 32 word) 0) = Some (replicate 512 7) \<and>
    snd (ata_read_sectors (0x3F :: 32 word) 1 (replicate 512 0)
           (empty_fs\<lparr>files := [''sector3F.bin'' \<mapsto> replicate 512 7]\<rparr>)) = replicate 512 7)"
  using ata_sectors_files [of "0x3F :: 32 word" 1 "replicate 512 0" empty_fs "''3F.bin''"
                              "replicate 512 7"]
        ata_sectors_files [of "0x3F :: 32 word" 1 "replicate 512 0"
                              "empty_fs\<lparr>files := [''sector3F.bin'' \<mapsto> replicate 512 7]\<rparr>"
                              "''3F.bin''" "replicate 512 7"]
  by (simp add: empty_fs_def)

text \<open>
  The claim as stated names the file \<open>3F.bin\<close>: after sector \<open>0x3F\<close> is written to an empty
  file system there is no such file, and the data are in \<open>sector3F.bin\<close>.
\<close>

theorem ata_write_sectors_counterexample:
  "files (snd (ata_write_sectors (0x3F :: 32 word) 1 (replicate 512 0) empty_fs)) ''3F.bin'' = None \<and>
   files (snd (ata_write_sectors (0x3F :: 32 word) 1 (replicate 512 0) empty_fs)) ''sector3F.bin''
     = Some (replicate 512 0)"
  by (simp add: ata_write_sectors_def write_sector_def sector_name_3F empty_fs_def)

text \<open>
  Every iteration writes the start of the buffer: the file of the second sector holds the
  first 512 bytes, not the second 512.
\<close>

lemma hexX_40: "hexX 64 = ''40''"
  by code_simp

lemma ata_write_sectors_second_sector:
  "files (snd (ata_write_sectors (0x3F :: 32 word) 2 (replicate 512 0 @ replicate 512 1) empty_fs))
     ''sector40.bin'' = Some (replicate 512 0)"
  by (simp add: ata_write_sectors_def write_sector_def sector_name_def hexX_3F hexX_40 empty_fs_def
        upt_conv_Cons)

end
